theory Spec2Isabelle
  imports Main
begin

chapter \<open>The executions indexer and the exclusive run of a task\<close>

text \<open>
  The lambda that indexes the executions of Step Functions workflows in Elasticsearch
  (\<open>findAndIndexExecutions\<close> and its \<open>handler\<close>) and the exclusive run of
  \<open>GenerateMrfTask\<close>, as functions of HOL. Each function of the code is translated under its
  own name. What the code does to the outside (Elasticsearch, Step Functions, the clock) is
  made explicit: the calls are recorded in a trace, the answers are parameters, an exception
  or a rejected promise is the value \<open>Inl\<close> of its message.
\<close>

section \<open>JavaScript values used by the indexer\<close>

text \<open>
  \<open>Date.parse\<close> and \<open>Date.now\<close> return a whole number of milliseconds since the epoch, or
  (for \<open>Date.parse\<close>) \<open>NaN\<close>. The indexer subtracts such numbers from one another and
  subtracts 300000 from one; for dates less than 285000 years apart the results stay below
  \<open>2^53\<close> in magnitude, where the arithmetic of JavaScript numbers is the arithmetic of
  integers. So a number is an integer or \<open>NaN\<close>. Every comparison with \<open>NaN\<close> is false and
  every difference with \<open>NaN\<close> is \<open>NaN\<close>.
\<close>

datatype jsnum = Num int | NaN

fun js_minus :: "jsnum \<Rightarrow> jsnum \<Rightarrow> jsnum" where
  "js_minus (Num a) (Num b) = Num (a - b)"
| "js_minus _ _ = NaN"

fun js_less :: "jsnum \<Rightarrow> jsnum \<Rightarrow> bool" where
  "js_less (Num a) (Num b) = (a < b)"
| "js_less _ _ = False"

text \<open>\<open>null\<close> is \<open>None\<close>; in arithmetic \<open>null\<close> converts to \<open>0\<close>.\<close>

fun ToNumber :: "jsnum option \<Rightarrow> jsnum" where
  "ToNumber None = Num 0"
| "ToNumber (Some n) = n"

text \<open>\<open>!nextToken\<close> holds for \<open>undefined\<close>, \<open>null\<close> and the empty string.\<close>

fun truthy :: "string option \<Rightarrow> bool" where
  "truthy None = False"
| "truthy (Some s) = (s \<noteq> [])"

section \<open>Data\<close>

text \<open>
  One entry of a \<open>listExecutions\<close> page. A date field may be absent (a running execution has
  no \<open>stopDate\<close>).
\<close>

record execution =
  status :: string
  startDate :: "string option"
  stopDate :: "string option"
  name :: string

record page =
  executions :: "execution list"
  nextToken :: "string option"

text \<open>A workflow of the collection configuration: \<open>{ id, arn }\<close>.\<close>

record workflow =
  wf_id :: string
  wf_arn :: string

text \<open>
  The document built by \<open>executionToDoc\<close>. The field \<open>_id\<close> is \<open>doc_id\<close>; it is \<open>None\<close> once
  \<open>delete indexDoc._id\<close> has removed it.
\<close>

record doc =
  doc_id :: "string option"
  workflow_id :: string
  collection_id :: "string option"
  granule_id :: "string option"
  start_date :: jsnum
  stop_date :: jsnum
  elapsed_ms :: jsnum
  success :: bool

text \<open>
  The lines of a bulk request: the action \<open>{ index: { _index, _type, _id } }\<close> and the
  document that follows it.
\<close>

datatype bulk_line = Action string string "string option" | Source doc

text \<open>An index declaration (\<open>executionsIndex\<close>, \<open>executionsMetaIndex\<close>): its name and type.\<close>

record index_decl =
  index_name :: string
  index_type :: string

definition executionsIndex :: index_decl where
  "executionsIndex = \<lparr>index_name = ''executions'', index_type = ''execution''\<rparr>"

definition executionsMetaIndex :: index_decl where
  "executionsMetaIndex = \<lparr>index_name = ''executions-meta'', index_type = ''executionMeta''\<rparr>"

section \<open>The services the indexer calls\<close>

text \<open>
  Every call the code makes to Elasticsearch, to Step Functions, to the collection
  configuration, to the clock and to the timer is recorded, in order, in the trace.
\<close>

datatype call =
    IndicesExists string
  | IndicesPutMapping string string
  | IndicesCreate string
  | EsSearch string
  | EsIndex string string string int
  | EsBulk "bulk_line list"
  | DateNow
  | LoadCollectionConfig string
  | ListExecutions string "string option" int
  | Sleep int

text \<open>
  What the services answer is not decided by the code. Each answer is a function of the
  number of calls made so far (the length of the trace) and of the request, so that the same
  request may be answered differently at different moments. A rejected promise is \<open>Inl\<close> of
  the error's message. \<open>Date_parse\<close> is \<open>Date.parse\<close> on a string, and
  \<open>parseExecutionName\<close> is the parser of \<open>./execution-name-parser\<close>, which the code imports.
  \<open>stored_date\<close> is the text Elasticsearch returns for a stored date. The calls of
  \<open>es().search\<close>, \<open>es().index\<close> and \<open>es().indices\<close> are taken to resolve.
\<close>

record env =
  Date_parse :: "string \<Rightarrow> jsnum"
  Date_now :: "nat \<Rightarrow> int"
  parseExecutionName :: "string \<Rightarrow> string option \<times> string option"
  indices_exists :: "nat \<Rightarrow> string \<Rightarrow> bool"
  acknowledged :: "nat \<Rightarrow> bool"
  stored_date :: "int \<Rightarrow> string"
  loadCollectionConfig :: "nat \<Rightarrow> string \<Rightarrow> string + workflow list"
  listExecutions :: "nat \<Rightarrow> string \<Rightarrow> string option \<Rightarrow> string + page"
  bulk :: "nat \<Rightarrow> bulk_line list \<Rightarrow> string + bool option"

text \<open>
  The state the code changes: the documents of the index \<open>executions-meta\<close> (document id and
  \<open>last_indexed_date\<close>, in the order a search returns them) and the trace.
\<close>

record world =
  executions_meta :: "(string \<times> int) list"
  trace :: "call list"

definition log_call :: "call \<Rightarrow> world \<Rightarrow> world" where
  "log_call c w = w\<lparr>trace := trace w @ [c]\<rparr>"

definition tick :: "world \<Rightarrow> nat" where
  "tick w = length (trace w)"

text \<open>\<open>Date.parse(v)\<close> of a field that may be absent: \<open>Date.parse(undefined)\<close> is \<open>NaN\<close>.\<close>

fun js_Date_parse :: "env \<Rightarrow> string option \<Rightarrow> jsnum" where
  "js_Date_parse E None = NaN"
| "js_Date_parse E (Some s) = Date_parse E s"

definition js_Date_now :: "env \<Rightarrow> world \<Rightarrow> int \<times> world" where
  "js_Date_now E w = (Date_now E (tick w), log_call DateNow w)"

section \<open>The indexer\<close>

definition verifySuccessfulIndexResponse :: "bool \<Rightarrow> string + unit" where
  "verifySuccessfulIndexResponse ack =
     (if \<not> ack then Inl ''Unexpected index response: [object Object]'' else Inr ())"

definition createOrUpdateIndex :: "env \<Rightarrow> index_decl \<Rightarrow> world \<Rightarrow> (string + unit) \<times> world" where
  "createOrUpdateIndex E index w =
     (let ex = indices_exists E (tick w) (index_name index);
          w1 = log_call (IndicesExists (index_name index)) w
      in if ex then
           (verifySuccessfulIndexResponse (acknowledged E (tick w1)),
            log_call (IndicesPutMapping (index_name index) (index_type index)) w1)
         else
           (verifySuccessfulIndexResponse (acknowledged E (tick w1)),
            log_call (IndicesCreate (index_name index)) w1))"

definition executionToDoc :: "env \<Rightarrow> string \<Rightarrow> execution \<Rightarrow> doc" where
  "executionToDoc E workflowId execution =
     (let (collectionId, granuleId) = parseExecutionName E (name execution);
          startDateEpoch = js_Date_parse E (startDate execution);
          stopDateEpoch = js_Date_parse E (stopDate execution)
      in \<lparr>doc_id = Some (name execution),
          workflow_id = workflowId,
          collection_id = collectionId,
          granule_id = granuleId,
          start_date = startDateEpoch,
          stop_date = stopDateEpoch,
          elapsed_ms = js_minus stopDateEpoch startDateEpoch,
          success = (status execution = ''SUCCEEDED'')\<rparr>)"

fun docsToBulk :: "doc list \<Rightarrow> bulk_line list" where
  "docsToBulk [] = []"
| "docsToBulk (d # docs) =
     Action ''executions'' ''execution'' (doc_id d) # Source (d\<lparr>doc_id := None\<rparr>) # docsToBulk docs"

definition getLastIndexedDate :: "env \<Rightarrow> world \<Rightarrow> jsnum option \<times> world" where
  "getLastIndexedDate E w =
     (let hits = executions_meta w;
          w1 = log_call (EsSearch ''executions-meta'') w
      in if length hits > 0
         then (Some (Date_parse E (stored_date E (snd (hd hits)))), w1)
         else (None, w1))"

text \<open>\<open>es().index\<close> with an id: the document of that id is replaced, or else added.\<close>

fun es_index :: "string \<Rightarrow> int \<Rightarrow> (string \<times> int) list \<Rightarrow> (string \<times> int) list" where
  "es_index i v [] = [(i, v)]"
| "es_index i v ((j, u) # ds) = (if i = j then (i, v) # ds else (j, u) # es_index i v ds)"

definition saveIndexedDate :: "int \<Rightarrow> world \<Rightarrow> world" where
  "saveIndexedDate date w =
     log_call (EsIndex ''executions-meta'' ''executionMeta'' ''executionMeta-id'' date)
       (w\<lparr>executions_meta := es_index ''executionMeta-id'' date (executions_meta w)\<rparr>)"

definition LAST_INDEXED_THRESHOLD :: int where
  "LAST_INDEXED_THRESHOLD = 5 * 60 * 1000"

definition executionBeforeLastIndexed :: "env \<Rightarrow> jsnum option \<Rightarrow> execution \<Rightarrow> bool" where
  "executionBeforeLastIndexed E lastIndexedDate e =
     js_less (js_Date_parse E (stopDate e))
       (js_minus (ToNumber lastIndexedDate) (Num LAST_INDEXED_THRESHOLD))"

definition indexExecutions :: "env \<Rightarrow> string \<Rightarrow> execution list \<Rightarrow> world \<Rightarrow> (string + int) \<times> world" where
  "indexExecutions E workflowId execs w =
     (let docs = map (executionToDoc E workflowId) (filter (\<lambda>e. status e \<noteq> ''RUNNING'') execs);
          numIndexed = int (length docs)
      in if numIndexed > 0 then
           (let bulkArgs = docsToBulk docs;
                esResp = bulk E (tick w) bulkArgs;
                w1 = log_call (EsBulk bulkArgs) w
            in case esResp of
                 Inl err \<Rightarrow> (Inl err, w1)
               | Inr errors \<Rightarrow>
                   if errors \<noteq> Some False
                   then (Inl ''Failed saving to elasticsearch'', w1)
                   else (Inr numIndexed, w1))
         else (Inr numIndexed, w))"

text \<open>
  \<open>stepFunctions().listExecutions({ stateMachineArn, nextToken, maxResults }).promise()\<close>.
\<close>

definition sf_listExecutions ::
  "env \<Rightarrow> string \<Rightarrow> string option \<Rightarrow> int \<Rightarrow> world \<Rightarrow> (string + page) \<times> world" where
  "sf_listExecutions E stateMachineArn tok maxResults w =
     (listExecutions E (tick w) stateMachineArn tok,
      log_call (ListExecutions stateMachineArn tok maxResults) w)"

text \<open>
  The loop \<open>while (!done)\<close> of one workflow, from the values of \<open>totalIndexed\<close> and
  \<open>nextToken\<close> at the head of an iteration. An exception leaves the loop (\<open>Inl\<close>); otherwise
  the loop ends with the last value of \<open>totalIndexed\<close>.
\<close>

function while_not_done ::
  "env \<Rightarrow> jsnum option \<Rightarrow> int \<Rightarrow> string \<Rightarrow> string \<Rightarrow> int \<Rightarrow> string option \<Rightarrow> world
     \<Rightarrow> (string + int) \<times> world" where
  "while_not_done E lastIndexedDate maxIndexExecutions wid arn totalIndexed tok w =
     (case sf_listExecutions E arn tok 100 w of
        (Inl err, w1) \<Rightarrow> (Inl err, w1)
      | (Inr resp, w1) \<Rightarrow>
          (case indexExecutions E wid (executions resp) w1 of
             (Inl err, w2) \<Rightarrow> (Inl err, w2)
           | (Inr numIndexed, w2) \<Rightarrow>
               if numIndexed > 0 then
                 (let totalIndexed' = totalIndexed + numIndexed;
                      foundOlderExecutions =
                        (length (filter (executionBeforeLastIndexed E lastIndexedDate)
                                   (executions resp)) > 0);
                      done' = (totalIndexed' \<ge> maxIndexExecutions
                               \<or> \<not> truthy (nextToken resp)
                               \<or> foundOlderExecutions)
                  in if done' then (Inr totalIndexed', w2)
                     else while_not_done E lastIndexedDate maxIndexExecutions wid arn
                            totalIndexed' (nextToken resp) w2)
               else (Inr totalIndexed, w2)))"
  by pat_completeness auto
termination
  by (relation "measure (\<lambda>(E, l, m, wid, arn, tot, tok, w). nat (m - tot))") auto

declare while_not_done.simps [simp del]

text \<open>The function mapped over the workflows: the loop from \<open>totalIndexed = 0\<close>, \<open>nextToken = null\<close>.\<close>

definition index_workflow ::
  "env \<Rightarrow> jsnum option \<Rightarrow> int \<Rightarrow> workflow \<Rightarrow> world \<Rightarrow> (string + int) \<times> world" where
  "index_workflow E lastIndexedDate maxIndexExecutions wflow w =
     while_not_done E lastIndexedDate maxIndexExecutions (wf_id wflow) (wf_arn wflow) 0 None w"

text \<open>
  \<open>workflows.map(async ...)\<close> starts one loop per workflow; the loops share no variable and
  none is cancelled when another one throws. In the code the calls of the loops interleave,
  and the cycle throws as soon as one loop has thrown, while the other loops go on. They are
  run here one after the other, in the order of the list, each to its end: this fixes the
  order in which the calls of different loops enter the trace, and which of several errors
  comes first.
\<close>

fun map_workflows ::
  "env \<Rightarrow> jsnum option \<Rightarrow> int \<Rightarrow> workflow list \<Rightarrow> world \<Rightarrow> (string + int) list \<times> world" where
  "map_workflows E lastIndexedDate maxIndexExecutions [] w = ([], w)"
| "map_workflows E lastIndexedDate maxIndexExecutions (wflow # wflows) w =
     (let (r, w1) = index_workflow E lastIndexedDate maxIndexExecutions wflow w;
          (rs, w2) = map_workflows E lastIndexedDate maxIndexExecutions wflows w1
      in (r # rs, w2))"

text \<open>
  \<open>Promise.all\<close>: rejected with the rejection that comes first, else resolved with all the
  values. With the loops run one after the other, the rejection that comes first is the first
  of the list.
\<close>

fun Promise_all :: "(string + 'a) list \<Rightarrow> string + 'a list" where
  "Promise_all [] = Inr []"
| "Promise_all (Inl e # ps) = Inl e"
| "Promise_all (Inr v # ps) = (case Promise_all ps of Inl e \<Rightarrow> Inl e | Inr vs \<Rightarrow> Inr (v # vs))"

definition ext_loadCollectionConfig :: "env \<Rightarrow> string \<Rightarrow> world \<Rightarrow> (string + workflow list) \<times> world" where
  "ext_loadCollectionConfig E stackName w =
     (loadCollectionConfig E (tick w) stackName, log_call (LoadCollectionConfig stackName) w)"

definition findAndIndexExecutions :: "env \<Rightarrow> string \<Rightarrow> int \<Rightarrow> world \<Rightarrow> (string + unit) \<times> world" where
  "findAndIndexExecutions E stackName maxIndexExecutions w =
     (case createOrUpdateIndex E executionsIndex w of
        (Inl err, w1) \<Rightarrow> (Inl err, w1)
      | (Inr _, w1) \<Rightarrow>
     (case createOrUpdateIndex E executionsMetaIndex w1 of
        (Inl err, w2) \<Rightarrow> (Inl err, w2)
      | (Inr _, w2) \<Rightarrow>
     (let (lastIndexedDate, w3) = getLastIndexedDate E w2;
          (indexingStartTime, w4) = js_Date_now E w3
      in case ext_loadCollectionConfig E stackName w4 of
           (Inl err, w5) \<Rightarrow> (Inl err, w5)
         | (Inr workflows, w5) \<Rightarrow>
             (let (promises, w6) = map_workflows E lastIndexedDate maxIndexExecutions workflows w5
              in case Promise_all promises of
                   Inl err \<Rightarrow> (Inl err, w6)
                 | Inr _ \<Rightarrow> (Inr (), saveIndexedDate indexingStartTime w6)))))"

definition MAX_EXECUTIONS_TO_INDEX :: int where
  "MAX_EXECUTIONS_TO_INDEX = 50000"



section \<open>Reading a trace\<close>

text \<open>The number of page fetches (\<open>listExecutions\<close> calls) in a trace.\<close>

fun fetches :: "call list \<Rightarrow> nat" where
  "fetches [] = 0"
| "fetches (ListExecutions a t n # cs) = Suc (fetches cs)"
| "fetches (_ # cs) = fetches cs"

text \<open>The bodies of the bulk requests in a trace, in order.\<close>

fun bulks :: "call list \<Rightarrow> bulk_line list list" where
  "bulks [] = []"
| "bulks (EsBulk b # cs) = b # bulks cs"
| "bulks (_ # cs) = bulks cs"

text \<open>The dates given to \<open>saveIndexedDate\<close> in a trace, in order.\<close>

fun saves :: "call list \<Rightarrow> int list" where
  "saves [] = []"
| "saves (EsIndex i t d v # cs) = v # saves cs"
| "saves (_ # cs) = saves cs"

text \<open>The executions of a page that \<open>indexExecutions\<close> keeps.\<close>

definition terminal :: "execution list \<Rightarrow> execution list" where
  "terminal execs = filter (\<lambda>e. status e \<noteq> ''RUNNING'') execs"

text \<open>The stored watermark: \<open>last_indexed_date\<close> of the document \<open>executionMeta-id\<close>.\<close>

definition watermark :: "world \<Rightarrow> int option" where
  "watermark w = map_of (executions_meta w) ''executionMeta-id''"

text \<open>
  One iteration of the loop that is not followed by another: the page is fetched and
  indexed, and the loop ends with the new \<open>totalIndexed\<close> (or with the exception).
\<close>

definition last_iteration ::
  "env \<Rightarrow> string \<Rightarrow> string \<Rightarrow> int \<Rightarrow> string option \<Rightarrow> world \<Rightarrow> (string + int) \<times> world" where
  "last_iteration E wid arn totalIndexed tok w =
     (case sf_listExecutions E arn tok 100 w of
        (Inl err, w1) \<Rightarrow> (Inl err, w1)
      | (Inr resp, w1) \<Rightarrow>
          (case indexExecutions E wid (executions resp) w1 of
             (Inl err, w2) \<Rightarrow> (Inl err, w2)
           | (Inr numIndexed, w2) \<Rightarrow> (Inr (totalIndexed + numIndexed), w2)))"

section \<open>An example environment\<close>

text \<open>
  A small environment on which the definitions can be evaluated: \<open>Date.parse\<close> on the few
  dates that occur in it, a parser that cuts the name at its first seven characters, indexes
  that exist, index calls that are acknowledged, and two workflows. Its page source, its
  bulk answers and its clock are parameters.
\<close>

definition demo_parse :: "string \<Rightarrow> jsnum" where
  "demo_parse s =
     (if s = ''2018-03-01T10:00:00.000Z'' then Num 1519898400000
      else if s = ''2018-03-01T09:54:00.000Z'' then Num 1519898040000
      else if s = ''2018-03-01T09:58:00.000Z'' then Num 1519898280000
      else if s = ''2018-03-01T10:01:00.000Z'' then Num 1519898460000
      else if s = ''2018-03-01T10:02:30.000Z'' then Num 1519898550000
      else if s = ''1960-01-01T00:00:00.000Z'' then Num (- 315619200000)
      else NaN)"

definition demo_stored_date :: "int \<Rightarrow> string" where
  "demo_stored_date v = (if v = 1519898400000 then ''2018-03-01T10:00:00.000Z'' else '''')"

definition demo_workflows :: "workflow list" where
  "demo_workflows =
     [\<lparr>wf_id = ''IngestGranule'', wf_arn = ''arn:ingest''\<rparr>,
      \<lparr>wf_id = ''PublishGranule'', wf_arn = ''arn:publish''\<rparr>]"

definition demo_env ::
  "(string \<Rightarrow> string option \<Rightarrow> string + page) \<Rightarrow> (bulk_line list \<Rightarrow> string + bool option)
     \<Rightarrow> (nat \<Rightarrow> int) \<Rightarrow> env" where
  "demo_env source answer clock =
     \<lparr>Date_parse = demo_parse,
      Date_now = clock,
      parseExecutionName = (\<lambda>n. (Some (take 7 n), Some (drop 9 n))),
      indices_exists = (\<lambda>n i. True),
      acknowledged = (\<lambda>n. True),
      stored_date = demo_stored_date,
      loadCollectionConfig = (\<lambda>n s. Inr demo_workflows),
      listExecutions = (\<lambda>n. source),
      bulk = (\<lambda>n. answer)\<rparr>"

definition exec_succeeded :: execution where
  "exec_succeeded =
     \<lparr>status = ''SUCCEEDED'', startDate = Some ''2018-03-01T10:01:00.000Z'',
      stopDate = Some ''2018-03-01T10:02:30.000Z'', name = ''MOD09GQ__granule-1''\<rparr>"

definition exec_failed :: execution where
  "exec_failed =
     \<lparr>status = ''FAILED'', startDate = Some ''2018-03-01T09:58:00.000Z'',
      stopDate = Some ''2018-03-01T10:01:00.000Z'', name = ''MOD09GQ__granule-2''\<rparr>"

definition exec_running :: execution where
  "exec_running =
     \<lparr>status = ''RUNNING'', startDate = Some ''2018-03-01T10:02:30.000Z'',
      stopDate = None, name = ''MOD09GQ__granule-3''\<rparr>"

text \<open>Stopped six minutes before 10:00.\<close>

definition exec_old :: execution where
  "exec_old =
     \<lparr>status = ''SUCCEEDED'', startDate = Some ''2018-03-01T09:30:00.000Z'',
      stopDate = Some ''2018-03-01T09:54:00.000Z'', name = ''MOD09GQ__granule-0''\<rparr>"

text \<open>A stop date before the epoch.\<close>

definition exec_1960 :: execution where
  "exec_1960 =
     \<lparr>status = ''SUCCEEDED'', startDate = Some ''1960-01-01T00:00:00.000Z'',
      stopDate = Some ''1960-01-01T00:00:00.000Z'', name = ''MOD09GQ__granule-9''\<rparr>"

definition world0 :: world where
  "world0 = \<lparr>executions_meta = [], trace = []\<rparr>"

text \<open>Bulk answers: no error; and \<open>errors: true\<close> for every request.\<close>

definition bulk_ok :: "bulk_line list \<Rightarrow> string + bool option" where
  "bulk_ok b = Inr (Some False)"

definition bulk_errors :: "bulk_line list \<Rightarrow> string + bool option" where
  "bulk_errors b = Inr (Some True)"


text \<open>
  A source of two pages for the first workflow (the first page has a continuation token)
  and of one page for the second.
\<close>

definition source_two_pages :: "string \<Rightarrow> string option \<Rightarrow> string + page" where
  "source_two_pages arn tok =
     (if arn = ''arn:ingest'' \<and> tok = None
        then Inr \<lparr>executions = [exec_running, exec_succeeded], nextToken = Some ''page-2''\<rparr>
      else if arn = ''arn:ingest'' \<and> tok = Some ''page-2''
        then Inr \<lparr>executions = [exec_failed], nextToken = None\<rparr>
      else if arn = ''arn:publish'' \<and> tok = None
        then Inr \<lparr>executions = [exec_succeeded], nextToken = None\<rparr>
      else Inl ''ExecutionDoesNotExist'')"

text \<open>A source whose first page holds an execution older than the cutoff, and has a token.\<close>

definition source_old :: "string \<Rightarrow> string option \<Rightarrow> string + page" where
  "source_old arn tok =
     (if tok = None
        then Inr \<lparr>executions = [exec_succeeded, exec_old], nextToken = Some ''page-2''\<rparr>
      else Inr \<lparr>executions = [exec_old], nextToken = None\<rparr>)"

text \<open>A source whose first page holds only running executions, and has a token.\<close>

definition source_running :: "string \<Rightarrow> string option \<Rightarrow> string + page" where
  "source_running arn tok =
     (if tok = None
        then Inr \<lparr>executions = [exec_running], nextToken = Some ''page-2''\<rparr>
      else Inr \<lparr>executions = [exec_succeeded], nextToken = None\<rparr>)"

text \<open>A source whose first page holds an execution that stopped before the epoch.\<close>

definition source_1960 :: "string \<Rightarrow> string option \<Rightarrow> string + page" where
  "source_1960 arn tok =
     (if tok = None
        then Inr \<lparr>executions = [exec_1960], nextToken = Some ''page-2''\<rparr>
      else Inr \<lparr>executions = [exec_succeeded], nextToken = None\<rparr>)"

text \<open>Three pages of 100, 100 and 40 executions; the first two have a token.\<close>

definition source_three_pages :: "string \<Rightarrow> string option \<Rightarrow> string + page" where
  "source_three_pages arn tok =
     (if tok = None
        then Inr \<lparr>executions = replicate 100 exec_succeeded, nextToken = Some ''page-2''\<rparr>
      else if tok = Some ''page-2''
        then Inr \<lparr>executions = replicate 100 exec_failed, nextToken = Some ''page-3''\<rparr>
      else Inr \<lparr>executions = replicate 40 exec_succeeded, nextToken = None\<rparr>)"

text \<open>A source of one page of one execution for every workflow.\<close>

definition source_one_page :: "string \<Rightarrow> string option \<Rightarrow> string + page" where
  "source_one_page arn tok = Inr \<lparr>executions = [exec_succeeded], nextToken = None\<rparr>"

text \<open>
  A clock that advances a second at each call (and reads 10:00:00 at the sixth call), and
  one that goes back a second at each call.
\<close>

definition clock_forward :: "nat \<Rightarrow> int" where
  "clock_forward n = 1519898395000 + 1000 * int n"

definition clock_backward :: "nat \<Rightarrow> int" where
  "clock_backward n = 1519898405000 - 1000 * int n"

text \<open>
  The world in which the loops of the first cycle start, in a handler run from \<open>world0\<close> on
  the stack \<open>stack\<close>.
\<close>

definition world_loaded :: world where
  "world_loaded =
     \<lparr>executions_meta = [],
      trace = [DateNow,
               IndicesExists ''executions'', IndicesPutMapping ''executions'' ''execution'',
               IndicesExists ''executions-meta'', IndicesPutMapping ''executions-meta'' ''executionMeta'',
               EsSearch ''executions-meta'', DateNow, LoadCollectionConfig ''stack'']\<rparr>"

section \<open>Exclusive runs of a task\<close>

text \<open>
  \<open>GenerateMrfTask.run\<close> runs the task's work under \<open>this.exclusive\<close>, with the task's
  transaction key and a lock timeout of twenty minutes.
\<close>

definition LOCK_TIMEOUT_MS :: int where
  "LOCK_TIMEOUT_MS = 20 * 60 * 1000"

text \<open>
  Modelled from the spec: the lease store behind \<open>Task.exclusive\<close> (\<open>gitc-common/task\<close>), which is
  not among the sources. A lease is \<open>(resourceKey, holderId, expiresAt)\<close>; the store holds at
  most one lease for a key.
\<close>

record lease =
  resourceKey :: string
  holderId :: string
  expiresAt :: int

type_synonym lease_store = "string \<rightharpoonup> lease"

text \<open>
  Modelled from the spec: \<open>tryAcquire(key, holderId, ttl)\<close> of the lease store, which is not among
  the sources: an atomic conditional write that succeeds only if no unexpired lease exists
  for the key. The time of the attempt is \<open>now\<close>; a lease is unexpired before \<open>expiresAt\<close>.
\<close>

definition tryAcquire ::
  "int \<Rightarrow> string \<Rightarrow> string \<Rightarrow> int \<Rightarrow> lease_store \<Rightarrow> bool \<times> lease_store" where
  "tryAcquire now key holder ttl st =
     (case st key of
        Some l \<Rightarrow>
          if now < expiresAt l then (False, st)
          else (True, st(key \<mapsto> \<lparr>resourceKey = key, holderId = holder, expiresAt = now + ttl\<rparr>))
      | None \<Rightarrow>
          (True, st(key \<mapsto> \<lparr>resourceKey = key, holderId = holder, expiresAt = now + ttl\<rparr>)))"

text \<open>
  Modelled from the spec: \<open>release(key, holderId)\<close> of the lease store, which is not among the
  sources: the holder's lease on the key is removed.
\<close>

definition release :: "string \<Rightarrow> string \<Rightarrow> lease_store \<Rightarrow> lease_store" where
  "release key holder st =
     (case st key of
        Some l \<Rightarrow> if holderId l = holder then st(key := None) else st
      | None \<Rightarrow> st)"

text \<open>
  Modelled from the spec: the result of \<open>Task.exclusive\<close>, which is not among the sources:
  \<open>Busy\<close>, or the result of the function that was run (\<open>Inl\<close> when it failed).
\<close>

datatype 'a outcome = Busy | Ran "string + 'a"

text \<open>
  Modelled from the spec: the progress of one call of \<open>Task.exclusive\<close>, which is not among the
  sources. A call has not started, holds the lease while its function runs, or has returned.
\<close>

datatype 'a call_state = NotStarted | Holding | Returned "'a outcome"

text \<open>
  Modelled from the spec: what concurrent calls of \<open>Task.exclusive\<close> share and show. The
  lease store, the state of each holder's call, and the holders whose function was run, in
  order.
\<close>

record 'a sys =
  leases :: lease_store
  calls :: "string \<Rightarrow> 'a call_state"
  ran :: "string list"

definition sys0 :: "lease_store \<Rightarrow> 'a sys" where
  "sys0 st = \<lparr>leases = st, calls = (\<lambda>h. NotStarted), ran = []\<rparr>"

text \<open>
  Modelled from the spec: \<open>Task.exclusive(key, timeout, fn)\<close> (\<open>withLease\<close> in the spec), which is
  not among the sources, as the steps of one holder's call. The first step is the attempt to
  acquire the lease, at the time \<open>now\<close>: when it fails the call returns \<open>Busy\<close> at once, with
  no wait and no retry. The second step, for a call that holds the lease, runs the function
  to its end and releases the lease, whether the function succeeded or failed. Calls of
  several holders interleave at the steps.
\<close>

definition exclusive_step ::
  "string \<Rightarrow> int \<Rightarrow> (string \<Rightarrow> string + 'a) \<Rightarrow> string \<times> int \<Rightarrow> 'a sys \<Rightarrow> 'a sys" where
  "exclusive_step key timeout fn step s =
     (let (h, now) = step in
      case calls s h of
        NotStarted \<Rightarrow>
          (case tryAcquire now key h timeout (leases s) of
             (True, st) \<Rightarrow> s\<lparr>leases := st, calls := (calls s)(h := Holding)\<rparr>
           | (False, st) \<Rightarrow> s\<lparr>calls := (calls s)(h := Returned Busy)\<rparr>)
      | Holding \<Rightarrow>
          s\<lparr>leases := release key h (leases s),
            calls := (calls s)(h := Returned (Ran (fn h))),
            ran := ran s @ [h]\<rparr>
      | Returned r \<Rightarrow> s)"

text \<open>
  Modelled from the spec: concurrent calls of \<open>Task.exclusive\<close> with one key, as the steps of a
  schedule taken one after the other; each step names the holder that moves and the time.
\<close>

definition exclusive ::
  "string \<Rightarrow> int \<Rightarrow> (string \<Rightarrow> string + 'a) \<Rightarrow> (string \<times> int) list \<Rightarrow> 'a sys \<Rightarrow> 'a sys" where
  "exclusive key timeout fn schedule s = foldl (\<lambda>s step. exclusive_step key timeout fn step s) s schedule"

text \<open>
  \<open>run() { return this.exclusive(this.transactionKey, LOCK_TIMEOUT_MS, this.runExclusive.bind(this)); }\<close>,
  for the tasks that call it according to a schedule.
\<close>

definition run ::
  "string \<Rightarrow> (string \<Rightarrow> string + 'a) \<Rightarrow> (string \<times> int) list \<Rightarrow> 'a sys \<Rightarrow> 'a sys" where
  "run transactionKey runExclusive = exclusive transactionKey LOCK_TIMEOUT_MS runExclusive"

section \<open>Traces\<close>

lemma fetches_append: "fetches (xs @ ys) = fetches xs + fetches ys"
  by (induction xs rule: fetches.induct) auto

lemma bulks_append: "bulks (xs @ ys) = bulks xs @ bulks ys"
  by (induction xs rule: bulks.induct) auto

lemma saves_append: "saves (xs @ ys) = saves xs @ saves ys"
  by (induction xs rule: saves.induct) auto

lemma log_call_simps [simp]:
  "trace (log_call c w) = trace w @ [c]"
  "executions_meta (log_call c w) = executions_meta w"
  "tick (log_call c w) = Suc (tick w)"
  by (simp_all add: log_call_def tick_def)

section \<open>Documents and bulk requests\<close>

lemma executionToDoc_eq:
  "executionToDoc E wid e =
     \<lparr>doc_id = Some (name e), workflow_id = wid,
      collection_id = fst (parseExecutionName E (name e)),
      granule_id = snd (parseExecutionName E (name e)),
      start_date = js_Date_parse E (startDate e),
      stop_date = js_Date_parse E (stopDate e),
      elapsed_ms = js_minus (js_Date_parse E (stopDate e)) (js_Date_parse E (startDate e)),
      success = (status e = ''SUCCEEDED'')\<rparr>"
  by (simp add: executionToDoc_def Let_def split_beta)

lemma docsToBulk_Action:
  "Action i t n \<in> set (docsToBulk ds) \<longleftrightarrow>
     i = ''executions'' \<and> t = ''execution'' \<and> (\<exists>d \<in> set ds. doc_id d = n)"
  by (induction ds) auto

lemma docsToBulk_Source:
  "Source s \<in> set (docsToBulk ds) \<longleftrightarrow> (\<exists>d \<in> set ds. s = d\<lparr>doc_id := None\<rparr>)"
  by (induction ds) auto

lemma terminal_all:
  "\<forall>e \<in> set execs. status e \<noteq> ''RUNNING'' \<Longrightarrow> terminal execs = execs"
  by (simp add: terminal_def)

lemma indexExecutions_empty:
  "terminal execs = [] \<Longrightarrow> indexExecutions E wid execs w = (Inr 0, w)"
  by (simp add: indexExecutions_def terminal_def)

lemma indexExecutions_world:
  "snd (indexExecutions E wid execs w) =
     (if terminal execs = [] then w
      else log_call (EsBulk (docsToBulk (map (executionToDoc E wid) (terminal execs)))) w)"
  by (auto simp: indexExecutions_def terminal_def Let_def split: sum.splits)

lemma indexExecutions_trace:
  "trace (snd (indexExecutions E wid execs w)) =
     trace w @ (if terminal execs = [] then []
                else [EsBulk (docsToBulk (map (executionToDoc E wid) (terminal execs)))])"
  by (simp add: indexExecutions_world)

lemma indexExecutions_meta:
  "executions_meta (snd (indexExecutions E wid execs w)) = executions_meta w"
  by (simp add: indexExecutions_world)

lemma indexExecutions_count:
  "indexExecutions E wid execs w = (Inr n, w') \<Longrightarrow> n = int (length (terminal execs))"
  by (auto simp: indexExecutions_def terminal_def Let_def split: sum.splits if_splits)

lemma indexExecutions_ok:
  "terminal execs \<noteq> [] \<Longrightarrow>
   bulk E (tick w) (docsToBulk (map (executionToDoc E wid) (terminal execs))) = Inr (Some False) \<Longrightarrow>
   indexExecutions E wid execs w =
     (Inr (int (length (terminal execs))),
      log_call (EsBulk (docsToBulk (map (executionToDoc E wid) (terminal execs)))) w)"
  by (auto simp: indexExecutions_def terminal_def Let_def)

lemma indexExecutions_bulk_errors:
  assumes "terminal execs \<noteq> []"
      and "bulk E (tick w) (docsToBulk (map (executionToDoc E wid) (terminal execs))) = Inr errs"
      and "errs \<noteq> Some False"
  shows "fst (indexExecutions E wid execs w) = Inl ''Failed saving to elasticsearch''"
  using assms by (auto simp: indexExecutions_def terminal_def Let_def)

lemma indexExecutions_Inr_bulk:
  assumes "indexExecutions E wid execs w = (Inr n, w')" and "terminal execs \<noteq> []"
  shows "bulk E (tick w) (docsToBulk (map (executionToDoc E wid) (terminal execs))) = Inr (Some False)"
  using assms by (auto simp: indexExecutions_def terminal_def Let_def split: sum.splits if_splits)

section \<open>The cutoff test\<close>

lemma before_cutoff:
  "js_Date_parse E (stopDate e) = Num s \<Longrightarrow>
   executionBeforeLastIndexed E (Some (Num T)) e = (s < T - 300000)"
  by (simp add: executionBeforeLastIndexed_def LAST_INDEXED_THRESHOLD_def)

lemma before_cutoff_null:
  "executionBeforeLastIndexed E None e = js_less (js_Date_parse E (stopDate e)) (Num (- 300000))"
  by (simp add: executionBeforeLastIndexed_def LAST_INDEXED_THRESHOLD_def)

section \<open>One iteration of the loop\<close>

lemma loop_rejected:
  assumes "listExecutions E (tick w) arn tok = Inl err"
  shows "while_not_done E l m wid arn tot tok w = (Inl err, log_call (ListExecutions arn tok 100) w)"
  using assms by (simp add: while_not_done.simps[of E l m wid arn tot tok w] sf_listExecutions_def)

lemma loop_stops:
  assumes "listExecutions E (tick w) arn tok = Inr resp"
      and "terminal (executions resp) = []
           \<or> m \<le> tot + int (length (terminal (executions resp)))
           \<or> \<not> truthy (nextToken resp)
           \<or> (\<exists>e \<in> set (executions resp). executionBeforeLastIndexed E l e)"
  shows "while_not_done E l m wid arn tot tok w = last_iteration E wid arn tot tok w"
proof -
  obtain r w2 where ix: "indexExecutions E wid (executions resp)
      (log_call (ListExecutions arn tok 100) w) = (r, w2)"
    by (cases "indexExecutions E wid (executions resp) (log_call (ListExecutions arn tok 100) w)")
  show ?thesis
  proof (cases r)
    case (Inl err)
    with ix assms(1) show ?thesis
      by (simp add: while_not_done.simps[of E l m wid arn tot tok w] last_iteration_def
          sf_listExecutions_def)
  next
    case (Inr n)
    with ix have n: "n = int (length (terminal (executions resp)))"
      by (simp add: indexExecutions_count)
    from assms(2) ix Inr n assms(1) show ?thesis
      by (auto simp add: while_not_done.simps[of E l m wid arn tot tok w] last_iteration_def
          sf_listExecutions_def filter_empty_conv Let_def)
  qed
qed

lemma loop_continues:
  assumes "listExecutions E (tick w) arn tok = Inr resp"
      and "indexExecutions E wid (executions resp) (log_call (ListExecutions arn tok 100) w) = (Inr n, w2)"
      and "0 < n" "tot + n < m" "truthy (nextToken resp)"
      and "\<forall>e \<in> set (executions resp). \<not> executionBeforeLastIndexed E l e"
  shows "while_not_done E l m wid arn tot tok w =
         while_not_done E l m wid arn (tot + n) (nextToken resp) w2"
  using assms
  by (simp add: while_not_done.simps[of E l m wid arn tot tok w] sf_listExecutions_def
      filter_empty_conv Let_def)

text \<open>The three ways an iteration can go.\<close>

lemma loop_cases:
  obtains
    (rejected) err where "listExecutions E (tick w) arn tok = Inl err"
  | (continues) resp n w2 where
      "listExecutions E (tick w) arn tok = Inr resp"
      "indexExecutions E wid (executions resp) (log_call (ListExecutions arn tok 100) w) = (Inr n, w2)"
      "0 < n" "tot + n < m" "truthy (nextToken resp)"
      "\<forall>e \<in> set (executions resp). \<not> executionBeforeLastIndexed E l e"
  | (stops) resp where
      "listExecutions E (tick w) arn tok = Inr resp"
      "while_not_done E l m wid arn tot tok w = last_iteration E wid arn tot tok w"
proof (cases "listExecutions E (tick w) arn tok")
  case (Inl err)
  then show ?thesis by (rule rejected)
next
  case (Inr resp)
  let ?w1 = "log_call (ListExecutions arn tok 100) w"
  obtain r w2 where ix: "indexExecutions E wid (executions resp) ?w1 = (r, w2)"
    by (cases "indexExecutions E wid (executions resp) ?w1")
  show ?thesis
  proof (cases "\<exists>n. r = Inr n \<and> 0 < n \<and> tot + n < m \<and> truthy (nextToken resp)
                  \<and> (\<forall>e \<in> set (executions resp). \<not> executionBeforeLastIndexed E l e)")
    case True
    then show ?thesis using Inr ix continues by blast
  next
    case False
    have "while_not_done E l m wid arn tot tok w = last_iteration E wid arn tot tok w"
    proof (cases r)
      case (Inl err)
      with ix Inr show ?thesis
        by (simp add: while_not_done.simps[of E l m wid arn tot tok w] last_iteration_def
            sf_listExecutions_def)
    next
      case r: (Inr n)
      with ix have "n = int (length (terminal (executions resp)))"
        by (simp add: indexExecutions_count)
      with False r have "terminal (executions resp) = []
         \<or> m \<le> tot + int (length (terminal (executions resp)))
         \<or> \<not> truthy (nextToken resp)
         \<or> (\<exists>e \<in> set (executions resp). executionBeforeLastIndexed E l e)"
        by auto
      then show ?thesis by (rule loop_stops[OF Inr])
    qed
    with Inr show ?thesis by (rule stops)
  qed
qed

text \<open>Induction along the iterations that are followed by another one.\<close>

lemma loop_induct:
  assumes "\<And>tot tok w.
     (\<And>resp n w2.
        listExecutions E (tick w) arn tok = Inr resp \<Longrightarrow>
        indexExecutions E wid (executions resp) (log_call (ListExecutions arn tok 100) w) = (Inr n, w2) \<Longrightarrow>
        0 < n \<Longrightarrow> tot + n < m \<Longrightarrow> truthy (nextToken resp) \<Longrightarrow>
        \<forall>e \<in> set (executions resp). \<not> executionBeforeLastIndexed E l e \<Longrightarrow>
        P (tot + n) (nextToken resp) w2) \<Longrightarrow>
     P tot tok w"
  shows "P tot tok w"
proof -
  have "E' = E \<Longrightarrow> l' = l \<Longrightarrow> m' = m \<Longrightarrow> wid' = wid \<Longrightarrow> arn' = arn \<Longrightarrow> P tot tok w"
    for E' l' m' wid' arn'
  proof (induction E' l' m' wid' arn' tot tok w rule: while_not_done.induct)
    case (1 E' l' m' wid' arn' tot tok w)
    show ?case
    proof (rule assms)
      fix resp n w2
      assume a: "listExecutions E (tick w) arn tok = Inr resp"
        "indexExecutions E wid (executions resp) (log_call (ListExecutions arn tok 100) w) = (Inr n, w2)"
        "0 < n" "tot + n < m" "truthy (nextToken resp)"
        "\<forall>e \<in> set (executions resp). \<not> executionBeforeLastIndexed E l e"
      show "P (tot + n) (nextToken resp) w2"
        by (rule "1.IH"[of "Inr resp" "log_call (ListExecutions arn tok 100) w" resp "Inr n" w2 n
                "tot + n" _ _, OF _ refl _ refl a(3) refl refl refl _ "1.prems"])
           (use a "1.prems" in \<open>simp_all add: sf_listExecutions_def filter_empty_conv\<close>)
    qed
  qed
  then show ?thesis by simp
qed

lemma last_iteration_trace:
  assumes "listExecutions E (tick w) arn tok = Inr resp"
  shows "trace (snd (last_iteration E wid arn tot tok w)) =
           trace w @ ListExecutions arn tok 100 #
             (if terminal (executions resp) = [] then []
              else [EsBulk (docsToBulk (map (executionToDoc E wid) (terminal (executions resp))))])"
proof -
  let ?w1 = "log_call (ListExecutions arn tok 100) w"
  have "snd (last_iteration E wid arn tot tok w) = snd (indexExecutions E wid (executions resp) ?w1)"
    using assms by (auto simp: last_iteration_def sf_listExecutions_def split: prod.splits sum.splits)
  then show ?thesis by (simp add: indexExecutions_trace)
qed

lemma last_iteration_fetches:
  assumes "listExecutions E (tick w) arn tok = Inr resp"
  shows "fetches (trace (snd (last_iteration E wid arn tot tok w))) = fetches (trace w) + 1"
  by (simp add: last_iteration_trace[OF assms] fetches_append)

lemma last_iteration_bulk_errors:
  assumes le: "listExecutions E (tick w) arn tok = Inr resp"
      and k: "tick w \<le> k" "k < tick (snd (last_iteration E wid arn tot tok w))"
      and b: "trace (snd (last_iteration E wid arn tot tok w)) ! k = EsBulk b"
      and e: "bulk E k b = Inr errs" "errs \<noteq> Some False"
  shows "fst (last_iteration E wid arn tot tok w) = Inl ''Failed saving to elasticsearch''"
proof -
  let ?w1 = "log_call (ListExecutions arn tok 100) w"
  let ?B = "docsToBulk (map (executionToDoc E wid) (terminal (executions resp)))"
  have tr: "trace (snd (last_iteration E wid arn tot tok w)) =
      trace w @ ListExecutions arn tok 100 # (if terminal (executions resp) = [] then [] else [EsBulk ?B])"
    by (rule last_iteration_trace[OF le])
  have ne: "terminal (executions resp) \<noteq> []" and kk: "k = Suc (tick w)" and bb: "b = ?B"
    using k b unfolding tr tick_def
    by (auto simp: nth_append nth_Cons split: if_splits nat.splits)
  have "fst (indexExecutions E wid (executions resp) ?w1) = Inl ''Failed saving to elasticsearch''"
    using indexExecutions_bulk_errors[OF ne, of E ?w1 wid errs] e kk bb by simp
  then show ?thesis
    using le by (auto simp: last_iteration_def sf_listExecutions_def split: prod.splits sum.splits)
qed

lemma loop_step_terminal:
  assumes pg: "listExecutions E (tick w) arn tok = Inr resp"
      and tm: "\<forall>e \<in> set (executions resp). status e \<noteq> ''RUNNING''"
      and ne: "executions resp \<noteq> []"
      and ok: "\<forall>n b. bulk E n b = Inr (Some False)"
      and cap: "tot + int (length (executions resp)) < m"
      and tk: "truthy (nextToken resp)"
      and old: "\<forall>e \<in> set (executions resp). \<not> executionBeforeLastIndexed E l e"
  shows "while_not_done E l m wid arn tot tok w =
         while_not_done E l m wid arn (tot + int (length (executions resp))) (nextToken resp)
           (log_call (EsBulk (docsToBulk (map (executionToDoc E wid) (executions resp))))
              (log_call (ListExecutions arn tok 100) w))"
proof -
  let ?w1 = "log_call (ListExecutions arn tok 100) w"
  have t: "terminal (executions resp) = executions resp" by (rule terminal_all[OF tm])
  have ix: "indexExecutions E wid (executions resp) ?w1 =
      (Inr (int (length (executions resp))),
       log_call (EsBulk (docsToBulk (map (executionToDoc E wid) (executions resp)))) ?w1)"
    using indexExecutions_ok[of "executions resp" E ?w1 wid] ne ok by (simp add: t)
  show ?thesis
    by (rule loop_continues[OF pg ix _ cap tk old]) (use ne in simp)
qed

section \<open>The whole loop\<close>

text \<open>
  A loop adds calls to the trace, none of them a save, and at least one and at most
  \<open>max 1 (maxIndexExecutions - totalIndexed)\<close> of them page fetches.
\<close>

lemma loop_trace_extends:
  "\<exists>cs. trace (snd (while_not_done E l m wid arn tot tok w)) = trace w @ cs \<and> saves cs = []
     \<and> 1 \<le> fetches cs \<and> int (fetches cs) \<le> max 1 (m - tot)"
proof (induction tot tok w rule: loop_induct[where E = E and arn = arn and wid = wid and m = m and l = l])
  case (1 tot tok w)
  show ?case
  proof (cases rule: loop_cases[where E = E and w = w and arn = arn and tok = tok and wid = wid and tot = tot and m = m and l = l])
    case (rejected err)
    then show ?thesis by (simp add: loop_rejected)
  next
    case (continues resp n w2)
    have tr2: "trace w2 = trace w @ ListExecutions arn tok 100 #
             (if terminal (executions resp) = [] then []
              else [EsBulk (docsToBulk (map (executionToDoc E wid) (terminal (executions resp))))])"
      using indexExecutions_trace[of E wid "executions resp" "log_call (ListExecutions arn tok 100) w"]
        continues(2) by simp
    obtain cs where cs: "trace (snd (while_not_done E l m wid arn (tot + n) (nextToken resp) w2)) = trace w2 @ cs"
        "saves cs = []" "1 \<le> fetches cs" "int (fetches cs) \<le> max 1 (m - (tot + n))"
      using "1"[OF continues] by blast
    show ?thesis
      using cs continues(3,4)
      by (simp add: loop_continues[OF continues] tr2 saves_append fetches_append)
  next
    case (stops resp)
    then show ?thesis by (simp add: last_iteration_trace[OF stops(1)])
  qed
qed

text \<open>A loop leaves the index \<open>executions-meta\<close> as it is.\<close>

lemma loop_meta:
  "executions_meta (snd (while_not_done E l m wid arn tot tok w)) = executions_meta w"
proof (induction tot tok w rule: loop_induct[where E = E and arn = arn and wid = wid and m = m and l = l])
  case (1 tot tok w)
  show ?case
  proof (cases rule: loop_cases[where E = E and w = w and arn = arn and tok = tok and wid = wid and tot = tot and m = m and l = l])
    case (rejected err)
    then show ?thesis by (simp add: loop_rejected)
  next
    case (continues resp n w2)
    have "executions_meta w2 = executions_meta w"
      using indexExecutions_meta[of E wid "executions resp" "log_call (ListExecutions arn tok 100) w"]
        continues(2) by simp
    then show ?thesis
      using "1"[OF continues] by (simp add: loop_continues[OF continues])
  next
    case (stops resp)
    have "snd (last_iteration E wid arn tot tok w)
        = snd (indexExecutions E wid (executions resp) (log_call (ListExecutions arn tok 100) w))"
      using stops(1)
      by (auto simp: last_iteration_def sf_listExecutions_def split: prod.splits sum.splits)
    then show ?thesis by (simp add: stops(2) indexExecutions_meta)
  qed
qed

text \<open>A loop in which a bulk request was answered with errors has thrown.\<close>

lemma loop_bulk_errors:
  "while_not_done E l m wid arn tot tok w = (r, w') \<Longrightarrow> tick w \<le> k \<Longrightarrow> k < tick w' \<Longrightarrow>
   trace w' ! k = EsBulk b \<Longrightarrow> bulk E k b = Inr errs \<Longrightarrow> errs \<noteq> Some False \<Longrightarrow>
   r = Inl ''Failed saving to elasticsearch''"
proof (induction tot tok w rule: loop_induct[where E = E and arn = arn and wid = wid and m = m and l = l])
  case (1 tot tok w)
  let ?w1 = "log_call (ListExecutions arn tok 100) w"
  show ?case
  proof (cases rule: loop_cases[where E = E and w = w and arn = arn and tok = tok and wid = wid and tot = tot and m = m and l = l])
    case (rejected err)
    with "1.prems" show ?thesis
      by (auto simp: loop_rejected tick_def nth_append)
  next
    case (continues resp n w2)
    let ?B = "docsToBulk (map (executionToDoc E wid) (terminal (executions resp)))"
    have tr2: "trace w2 = trace w @ ListExecutions arn tok 100 #
             (if terminal (executions resp) = [] then [] else [EsBulk ?B])"
      using indexExecutions_trace[of E wid "executions resp" ?w1] continues(2) by simp
    have rest: "while_not_done E l m wid arn (tot + n) (nextToken resp) w2 = (r, w')"
      using "1.prems"(1) by (simp add: loop_continues[OF continues])
    obtain cs where cs: "trace w' = trace w2 @ cs"
      using loop_trace_extends[of E l m wid arn "tot + n" "nextToken resp" w2] rest by auto
    have ne: "terminal (executions resp) \<noteq> []"
      using continues(2,3) by (auto dest: indexExecutions_count)
    have ok: "bulk E (Suc (tick w)) ?B = Inr (Some False)"
      using indexExecutions_Inr_bulk[OF continues(2) ne] by simp
    have "tick w2 \<le> k"
    proof (rule ccontr)
      assume "\<not> tick w2 \<le> k"
      then have lt: "k < length (trace w2)" by (simp add: tick_def)
      then have "trace w' ! k = trace w2 ! k" by (simp add: cs nth_append)
      with "1.prems"(2,4) lt ne have "k = Suc (tick w)" "b = ?B"
        unfolding tr2 tick_def by (auto simp: nth_append nth_Cons split: if_splits nat.splits)
      with ok "1.prems"(5,6) show False by simp
    qed
    then show ?thesis
      by (rule "1.IH"[OF continues rest _ "1.prems"(3,4,5,6)])
  next
    case (stops resp)
    with "1.prems" last_iteration_bulk_errors[OF stops(1), of k wid tot b errs] show ?thesis
      by simp
  qed
qed



section \<open>The loops of a cycle\<close>




lemma map_workflows_meta:
  "executions_meta (snd (map_workflows E l m wfs w)) = executions_meta w"
proof (induction wfs arbitrary: w)
  case Nil
  then show ?case by simp
next
  case (Cons a wfs)
  obtain r w1 where a: "index_workflow E l m a w = (r, w1)" by (cases "index_workflow E l m a w")
  have "executions_meta w1 = executions_meta w"
    using loop_meta[of E l m "wf_id a" "wf_arn a" 0 None w] a by (simp add: index_workflow_def)
  with Cons[of w1] a show ?case by (simp add: Let_def split_beta)
qed

lemma map_workflows_trace:
  "\<exists>cs. trace (snd (map_workflows E l m wfs w)) = trace w @ cs \<and> saves cs = []"
proof (induction wfs arbitrary: w)
  case Nil
  then show ?case by simp
next
  case (Cons a wfs)
  obtain r w1 where a: "index_workflow E l m a w = (r, w1)" by (cases "index_workflow E l m a w")
  obtain cs where cs: "trace w1 = trace w @ cs" "saves cs = []"
    using loop_trace_extends[of E l m "wf_id a" "wf_arn a" 0 None w] a
    by (auto simp: index_workflow_def)
  obtain ds where ds: "trace (snd (map_workflows E l m wfs w1)) = trace w1 @ ds" "saves ds = []"
    using Cons[of w1] by blast
  have "trace (snd (map_workflows E l m (a # wfs) w)) = trace w @ (cs @ ds)"
    using a cs ds by (simp add: Let_def split_beta)
  moreover have "saves (cs @ ds) = []" using cs ds by (simp add: saves_append)
  ultimately show ?case by blast
qed

lemma map_workflows_bulk_errors:
  "map_workflows E l m wfs w = (rs, w') \<Longrightarrow> tick w \<le> k \<Longrightarrow> k < tick w' \<Longrightarrow>
   trace w' ! k = EsBulk b \<Longrightarrow> bulk E k b = Inr errs \<Longrightarrow> errs \<noteq> Some False \<Longrightarrow>
   Inl ''Failed saving to elasticsearch'' \<in> set rs"
proof (induction wfs arbitrary: w rs)
  case Nil
  then show ?case by simp
next
  case (Cons a wfs)
  obtain r w1 where a: "index_workflow E l m a w = (r, w1)" by (cases "index_workflow E l m a w")
  obtain rs' where rest: "map_workflows E l m wfs w1 = (rs', w')" and rs: "rs = r # rs'"
    using Cons.prems(1) a by (auto simp: Let_def split: prod.splits)
  obtain ds where ds: "trace w' = trace w1 @ ds"
    using map_workflows_trace[of E l m wfs w1] rest by auto
  show ?case
  proof (cases "k < tick w1")
    case True
    then have "trace w1 ! k = EsBulk b"
      using Cons.prems(4) by (simp add: ds nth_append tick_def)
    then have "r = Inl ''Failed saving to elasticsearch''"
      using loop_bulk_errors[of E l m "wf_id a" "wf_arn a" 0 None w r w1 k b errs] a True Cons.prems
      by (simp add: index_workflow_def)
    then show ?thesis by (simp add: rs)
  next
    case False
    then have "Inl ''Failed saving to elasticsearch'' \<in> set rs'"
      using Cons.IH[OF rest _ Cons.prems(3,4,5,6)] by simp
    then show ?thesis by (simp add: rs)
  qed
qed

lemma Promise_all_isl: "isl (Promise_all ps) = (\<exists>p \<in> set ps. isl p)"
  by (induction ps rule: Promise_all.induct) (auto split: sum.splits)

lemma Promise_all_Inr: "(\<exists>vs. Promise_all ps = Inr vs) = (\<forall>p \<in> set ps. \<not> isl p)"
  using Promise_all_isl[of ps] by (cases "Promise_all ps") auto


section \<open>The cycle and the handler\<close>

lemma createOrUpdateIndex_effect:
  "createOrUpdateIndex E ix w = (r, w') \<Longrightarrow>
   executions_meta w' = executions_meta w \<and> tick w' = tick w + 2 \<and>
   (\<exists>cs. trace w' = trace w @ cs \<and> saves cs = [] \<and> fetches cs = 0)"
  by (auto simp: createOrUpdateIndex_def Let_def split: if_splits)

lemma getLastIndexedDate_effect:
  "getLastIndexedDate E w = (l, w') \<Longrightarrow> w' = log_call (EsSearch ''executions-meta'') w"
  by (auto simp: getLastIndexedDate_def Let_def split: if_splits)

lemma saveIndexedDate_effect:
  "executions_meta (saveIndexedDate t w) = es_index ''executionMeta-id'' t (executions_meta w)"
  "trace (saveIndexedDate t w) = trace w @ [EsIndex ''executions-meta'' ''executionMeta'' ''executionMeta-id'' t]"
  by (simp_all add: saveIndexedDate_def)

lemma map_of_es_index: "map_of (es_index i v ds) i = Some v"
  by (induction ds) auto

lemma watermark_saved: "watermark (saveIndexedDate t w) = Some t"
  by (simp add: watermark_def saveIndexedDate_effect map_of_es_index)

lemma cycle_run:
  assumes "createOrUpdateIndex E executionsIndex w = (Inr (), w1)"
      and "createOrUpdateIndex E executionsMetaIndex w1 = (Inr (), w2)"
      and "getLastIndexedDate E w2 = (l, w3)"
      and "js_Date_now E w3 = (t0, w4)"
      and "ext_loadCollectionConfig E s w4 = (Inr wfs, w5)"
      and "map_workflows E l m wfs w5 = (rs, w6)"
  shows "findAndIndexExecutions E s m w =
           (case Promise_all rs of Inl err \<Rightarrow> (Inl err, w6)
                                 | Inr _ \<Rightarrow> (Inr (), saveIndexedDate t0 w6))"
  using assms by (simp add: findAndIndexExecutions_def)

text \<open>What the calls before the loops leave unchanged.\<close>

lemma prologue_effect:
  assumes "createOrUpdateIndex E executionsIndex w = (r1, w1)"
      and "createOrUpdateIndex E executionsMetaIndex w1 = (r2, w2)"
      and "getLastIndexedDate E w2 = (l, w3)"
      and "js_Date_now E w3 = (t0, w4)"
      and "ext_loadCollectionConfig E s w4 = (r5, w5)"
  shows "executions_meta w5 = executions_meta w"
    and "saves (trace w5) = saves (trace w)"
    and "fetches (trace w4) = fetches (trace w)"
    and "t0 = Date_now E (tick w3)"
    and "tick w3 = tick w + 5"
    and "trace w5 = trace w3 @ [DateNow, LoadCollectionConfig s]"
proof -
  from createOrUpdateIndex_effect[OF assms(1)] obtain cs1 where
    1: "executions_meta w1 = executions_meta w" "tick w1 = tick w + 2"
       "trace w1 = trace w @ cs1" "saves cs1 = []" "fetches cs1 = 0" by blast
  from createOrUpdateIndex_effect[OF assms(2)] obtain cs2 where
    2: "executions_meta w2 = executions_meta w1" "tick w2 = tick w1 + 2"
       "trace w2 = trace w1 @ cs2" "saves cs2 = []" "fetches cs2 = 0" by blast
  have 3: "w3 = log_call (EsSearch ''executions-meta'') w2"
    by (rule getLastIndexedDate_effect[OF assms(3)])
  have 4: "w4 = log_call DateNow w3" "t0 = Date_now E (tick w3)"
    using assms(4) by (auto simp: js_Date_now_def)
  have 5: "w5 = log_call (LoadCollectionConfig s) w4"
    using assms(5) by (auto simp: ext_loadCollectionConfig_def)
  show "executions_meta w5 = executions_meta w" using 1 2 3 4 5 by simp
  show "saves (trace w5) = saves (trace w)" using 1 2 3 4 5 by (simp add: saves_append)
  show "fetches (trace w4) = fetches (trace w)" using 1 2 3 4 by (simp add: fetches_append)
  show "t0 = Date_now E (tick w3)" by (rule 4)
  show "tick w3 = tick w + 5" using 1 2 3 by simp
  show "trace w5 = trace w3 @ [DateNow, LoadCollectionConfig s]" using 4 5 by simp
qed

lemma cycle_success:
  assumes "findAndIndexExecutions E s m w = (Inr (), w')"
  shows "\<exists>k. tick w \<le> k \<and> k < tick w' \<and> trace w' ! k = DateNow
             \<and> watermark w' = Some (Date_now E k)
             \<and> saves (trace w') = saves (trace w) @ [Date_now E k]"
proof -
  obtain r1 w1 where c1: "createOrUpdateIndex E executionsIndex w = (r1, w1)"
    by (cases "createOrUpdateIndex E executionsIndex w")
  obtain r2 w2 where c2: "createOrUpdateIndex E executionsMetaIndex w1 = (r2, w2)"
    by (cases "createOrUpdateIndex E executionsMetaIndex w1")
  obtain l w3 where c3: "getLastIndexedDate E w2 = (l, w3)"
    by (cases "getLastIndexedDate E w2")
  obtain t0 w4 where c4: "js_Date_now E w3 = (t0, w4)"
    by (cases "js_Date_now E w3")
  obtain r5 w5 where c5: "ext_loadCollectionConfig E s w4 = (r5, w5)"
    by (cases "ext_loadCollectionConfig E s w4")
  have r1: "r1 = Inr ()" using assms c1 by (cases r1) (auto simp: findAndIndexExecutions_def)
  have r2: "r2 = Inr ()" using assms c1 c2 r1 by (cases r2) (auto simp: findAndIndexExecutions_def)
  obtain wfs where r5: "r5 = Inr wfs"
    using assms c1 c2 c3 c4 c5 r1 r2 by (cases r5) (auto simp: findAndIndexExecutions_def)
  obtain rs w6 where c6: "map_workflows E l m wfs w5 = (rs, w6)"
    by (cases "map_workflows E l m wfs w5")
  note run = cycle_run[OF c1[unfolded r1] c2[unfolded r2] c3 c4 c5[unfolded r5] c6]
  note pro = prologue_effect[OF c1 c2 c3 c4 c5]
  have w': "w' = saveIndexedDate t0 w6"
    using assms run by (cases "Promise_all rs") auto
  obtain cs where cs: "trace w6 = trace w5 @ cs" "saves cs = []"
    using map_workflows_trace[of E l m wfs w5] c6 by auto
  have tr: "trace w' = trace w3 @ DateNow # LoadCollectionConfig s # cs
               @ [EsIndex ''executions-meta'' ''executionMeta'' ''executionMeta-id'' t0]"
    by (simp add: w' saveIndexedDate_effect cs pro(6))
  have k: "trace w' ! tick w3 = DateNow"
    by (simp add: tr tick_def nth_append)
  have lt: "tick w3 < tick w'" by (simp add: tick_def tr)
  have sv: "saves (trace w') = saves (trace w) @ [t0]"
    using cs pro(2) by (simp add: w' saveIndexedDate_effect saves_append)
  have wm: "watermark w' = Some t0" by (simp add: w' watermark_saved)
  show ?thesis
    using k lt sv wm pro(4,5) by (intro exI[of _ "tick w3"]) simp
qed



section \<open>Leases\<close>

lemma tryAcquire_free:
  assumes "\<forall>l. st key = Some l \<longrightarrow> expiresAt l \<le> now"
  shows "tryAcquire now key h ttl st
         = (True, st(key \<mapsto> \<lparr>resourceKey = key, holderId = h, expiresAt = now + ttl\<rparr>))"
  using assms by (auto simp: tryAcquire_def split: option.splits)

lemma tryAcquire_held:
  assumes "st key = Some l" "now < expiresAt l"
  shows "tryAcquire now key h ttl st = (False, st)"
  using assms by (simp add: tryAcquire_def)

section \<open>The claims\<close>

text \<open>
  Claim C1. Take a cycle whose calls before the loops succeed: both indexes are set up,
  the watermark is read, the start time \<open>t0\<close> is read from the clock and the workflows are
  loaded; the loops then give the results \<open>rs\<close>. A loop in which a bulk request is answered
  with \<open>errors\<close> other than \<open>false\<close> throws \<open>Failed saving to elasticsearch\<close>, and so one of
  the results is that error when this happens in the cycle. When a loop has thrown, the cycle
  throws, it ends in the world the loops left, no date was saved and the index
  \<open>executions-meta\<close> is as it was before the cycle. When no loop has thrown, the cycle
  returns after \<open>saveIndexedDate t0\<close>: the trace has gained exactly that one save, the stored
  watermark is \<open>t0\<close>, and \<open>t0\<close> is the clock value read before any page of the cycle was
  fetched.
\<close>

theorem watermark_all_or_nothing:
  assumes "createOrUpdateIndex E executionsIndex w = (Inr (), w1)"
      and "createOrUpdateIndex E executionsMetaIndex w1 = (Inr (), w2)"
      and "getLastIndexedDate E w2 = (l, w3)"
      and "js_Date_now E w3 = (t0, w4)"
      and "ext_loadCollectionConfig E s w4 = (Inr wfs, w5)"
      and "map_workflows E l m wfs w5 = (rs, w6)"
  shows "(\<forall>wflow u. (\<exists>k b errs. tick u \<le> k \<and> k < tick (snd (index_workflow E l m wflow u))
                \<and> trace (snd (index_workflow E l m wflow u)) ! k = EsBulk b
                \<and> bulk E k b = Inr errs \<and> errs \<noteq> Some False)
            \<longrightarrow> fst (index_workflow E l m wflow u) = Inl ''Failed saving to elasticsearch'')
       \<and> ((\<exists>k b errs. tick w5 \<le> k \<and> k < tick w6 \<and> trace w6 ! k = EsBulk b
                \<and> bulk E k b = Inr errs \<and> errs \<noteq> Some False)
            \<longrightarrow> Inl ''Failed saving to elasticsearch'' \<in> set rs)
       \<and> ((\<exists>r \<in> set rs. isl r) \<longrightarrow>
              isl (fst (findAndIndexExecutions E s m w))
            \<and> snd (findAndIndexExecutions E s m w) = w6
            \<and> saves (trace w6) = saves (trace w)
            \<and> executions_meta w6 = executions_meta w)
       \<and> ((\<forall>r \<in> set rs. \<not> isl r) \<longrightarrow>
              findAndIndexExecutions E s m w = (Inr (), saveIndexedDate t0 w6)
            \<and> saves (trace (saveIndexedDate t0 w6)) = saves (trace w) @ [t0]
            \<and> watermark (saveIndexedDate t0 w6) = Some t0
            \<and> t0 = Date_now E (tick w3)
            \<and> fetches (trace w4) = fetches (trace w))"
proof (intro conjI allI impI)
  fix wflow u
  assume "\<exists>k b errs. tick u \<le> k \<and> k < tick (snd (index_workflow E l m wflow u))
                \<and> trace (snd (index_workflow E l m wflow u)) ! k = EsBulk b
                \<and> bulk E k b = Inr errs \<and> errs \<noteq> Some False"
  then obtain k b errs where k: "tick u \<le> k" "k < tick (snd (index_workflow E l m wflow u))"
      "trace (snd (index_workflow E l m wflow u)) ! k = EsBulk b"
      "bulk E k b = Inr errs" "errs \<noteq> Some False" by blast
  show "fst (index_workflow E l m wflow u) = Inl ''Failed saving to elasticsearch''"
    using loop_bulk_errors[of E l m "wf_id wflow" "wf_arn wflow" 0 None u
        "fst (index_workflow E l m wflow u)" "snd (index_workflow E l m wflow u)" k b errs] k
    by (simp add: index_workflow_def)
next
  assume "\<exists>k b errs. tick w5 \<le> k \<and> k < tick w6 \<and> trace w6 ! k = EsBulk b
                \<and> bulk E k b = Inr errs \<and> errs \<noteq> Some False"
  then show "Inl ''Failed saving to elasticsearch'' \<in> set rs"
    using map_workflows_bulk_errors[OF assms(6)] by blast
next
  note run = cycle_run[OF assms]
  note pro = prologue_effect[OF assms(1,2,3,4,5)]
  have m6: "executions_meta w6 = executions_meta w5"
    using map_workflows_meta[of E l m wfs w5] assms(6) by simp
  obtain cs where cs: "trace w6 = trace w5 @ cs" "saves cs = []"
    using map_workflows_trace[of E l m wfs w5] assms(6) by auto
  have s6: "saves (trace w6) = saves (trace w)"
    using cs pro(2) by (simp add: saves_append)
  {
    assume "\<exists>r \<in> set rs. isl r"
    then have "isl (Promise_all rs)" by (simp add: Promise_all_isl)
    then obtain err where err: "Promise_all rs = Inl err" by (cases "Promise_all rs") auto
    show "isl (fst (findAndIndexExecutions E s m w))" by (simp add: run err)
    show "snd (findAndIndexExecutions E s m w) = w6" by (simp add: run err)
    show "saves (trace w6) = saves (trace w)" by (rule s6)
    show "executions_meta w6 = executions_meta w" using m6 pro(1) by simp
  }
  {
    assume "\<forall>r \<in> set rs. \<not> isl r"
    then obtain vs where vs: "Promise_all rs = Inr vs" using Promise_all_Inr[of rs] by blast
    show "findAndIndexExecutions E s m w = (Inr (), saveIndexedDate t0 w6)" by (simp add: run vs)
    show "saves (trace (saveIndexedDate t0 w6)) = saves (trace w) @ [t0]"
      by (simp add: saveIndexedDate_effect saves_append s6)
    show "watermark (saveIndexedDate t0 w6) = Some t0" by (rule watermark_saved)
    show "t0 = Date_now E (tick w3)" by (rule pro(4))
    show "fetches (trace w4) = fetches (trace w)" by (rule pro(3))
  }
qed

theorem watermark_all_or_nothing_witness:
  "fst (findAndIndexExecutions (demo_env source_one_page bulk_ok clock_forward) ''stack'' 50000
        (log_call DateNow world0)) = Inr ()
   \<and> saves (trace (snd (findAndIndexExecutions (demo_env source_one_page bulk_ok clock_forward)
        ''stack'' 50000 (log_call DateNow world0)))) = [1519898401000]
   \<and> watermark (snd (findAndIndexExecutions (demo_env source_one_page bulk_ok clock_forward)
        ''stack'' 50000 (log_call DateNow world0))) = Some 1519898401000
   \<and> bulk (demo_env source_one_page bulk_errors clock_forward) 9
        (docsToBulk [executionToDoc (demo_env source_one_page bulk_errors clock_forward)
                       ''IngestGranule'' exec_succeeded]) = Inr (Some True)
   \<and> fst (index_workflow (demo_env source_one_page bulk_errors clock_forward) None 50000
        \<lparr>wf_id = ''IngestGranule'', wf_arn = ''arn:ingest''\<rparr> world_loaded)
      = Inl ''Failed saving to elasticsearch''
   \<and> Inl ''Failed saving to elasticsearch''
        \<in> set (fst (map_workflows (demo_env source_one_page bulk_errors clock_forward) None 50000
                    demo_workflows world_loaded))
   \<and> isl (fst (findAndIndexExecutions (demo_env source_one_page bulk_errors clock_forward)
        ''stack'' 50000 (log_call DateNow world0)))
   \<and> saves (trace (snd (findAndIndexExecutions (demo_env source_one_page bulk_errors clock_forward)
        ''stack'' 50000 (log_call DateNow world0)))) = []
   \<and> executions_meta (snd (findAndIndexExecutions (demo_env source_one_page bulk_errors clock_forward)
        ''stack'' 50000 (log_call DateNow world0))) = []"
proof -
  let ?w = "log_call DateNow world0"
  let ?w1 = "log_call (IndicesPutMapping ''executions'' ''execution'')
               (log_call (IndicesExists ''executions'') ?w)"
  let ?w2 = "log_call (IndicesPutMapping ''executions-meta'' ''executionMeta'')
               (log_call (IndicesExists ''executions-meta'') ?w1)"
  let ?w3 = "log_call (EsSearch ''executions-meta'') ?w2"
  let ?w4 = "log_call DateNow ?w3"
  let ?ingest = "\<lparr>wf_id = ''IngestGranule'', wf_arn = ''arn:ingest''\<rparr>"
  {
    fix answer :: "bulk_line list \<Rightarrow> string + bool option"
    let ?E = "demo_env source_one_page answer clock_forward"
    have h1: "createOrUpdateIndex ?E executionsIndex ?w = (Inr (), ?w1)"
      by (simp add: createOrUpdateIndex_def demo_env_def verifySuccessfulIndexResponse_def
          executionsIndex_def Let_def)
    have h2: "createOrUpdateIndex ?E executionsMetaIndex ?w1 = (Inr (), ?w2)"
      by (simp add: createOrUpdateIndex_def demo_env_def verifySuccessfulIndexResponse_def
          executionsMetaIndex_def Let_def)
    have h3: "getLastIndexedDate ?E ?w2 = (None, ?w3)"
      by (simp add: getLastIndexedDate_def world0_def Let_def)
    have h4: "js_Date_now ?E ?w3 = (1519898401000, ?w4)"
      by (simp add: js_Date_now_def demo_env_def clock_forward_def tick_def world0_def)
    have h5: "ext_loadCollectionConfig ?E ''stack'' ?w4 = (Inr demo_workflows, world_loaded)"
      by (simp add: ext_loadCollectionConfig_def demo_env_def world_loaded_def log_call_def world0_def)
    have h6: "map_workflows ?E None 50000 demo_workflows world_loaded
        = (fst (map_workflows ?E None 50000 demo_workflows world_loaded),
           snd (map_workflows ?E None 50000 demo_workflows world_loaded))"
      by simp
    note watermark_all_or_nothing[OF h1 h2 h3 h4 h5 h6]
  }
  note c = this
  let ?Eok = "demo_env source_one_page bulk_ok clock_forward"
  let ?Ebad = "demo_env source_one_page bulk_errors clock_forward"
  let ?B = "docsToBulk [executionToDoc ?Ebad ''IngestGranule'' exec_succeeded]"
  have ok: "\<forall>r \<in> set (fst (map_workflows ?Eok None 50000 demo_workflows world_loaded)). \<not> isl r"
    by code_simp
  have w0: "saves (trace ?w) = []" "executions_meta ?w = []"
    by (simp_all add: world0_def)
  have e: "bulk ?Ebad 9 ?B = Inr (Some True)"
    by (simp add: demo_env_def bulk_errors_def)
  have k1: "tick world_loaded \<le> 9
      \<and> 9 < tick (snd (index_workflow ?Ebad None 50000 ?ingest world_loaded))
      \<and> trace (snd (index_workflow ?Ebad None 50000 ?ingest world_loaded)) ! 9 = EsBulk ?B"
    by code_simp
  have k2: "9 < tick (snd (map_workflows ?Ebad None 50000 demo_workflows world_loaded))
      \<and> trace (snd (map_workflows ?Ebad None 50000 demo_workflows world_loaded)) ! 9 = EsBulk ?B"
    by code_simp
  have ne: "Some True \<noteq> Some False" by simp
  have t1: "fst (index_workflow ?Ebad None 50000 ?ingest world_loaded) = Inl ''Failed saving to elasticsearch''"
    using c[of bulk_errors, THEN conjunct1, rule_format, of world_loaded ?ingest] k1 e ne by blast
  have t2: "Inl ''Failed saving to elasticsearch''
      \<in> set (fst (map_workflows ?Ebad None 50000 demo_workflows world_loaded))"
    using c[of bulk_errors, THEN conjunct2, THEN conjunct1] k1 k2 e ne by blast
  then have bad: "\<exists>r \<in> set (fst (map_workflows ?Ebad None 50000 demo_workflows world_loaded)). isl r"
    by (intro bexI[of _ "Inl ''Failed saving to elasticsearch''"]) simp_all
  from c[of bulk_ok, THEN conjunct2, THEN conjunct2, THEN conjunct2] ok
  have 1: "findAndIndexExecutions ?Eok ''stack'' 50000 ?w
        = (Inr (), saveIndexedDate 1519898401000 (snd (map_workflows ?Eok None 50000 demo_workflows world_loaded)))"
    and 2: "saves (trace (saveIndexedDate 1519898401000 (snd (map_workflows ?Eok None 50000 demo_workflows world_loaded))))
        = saves (trace ?w) @ [1519898401000]"
    and 3: "watermark (saveIndexedDate 1519898401000 (snd (map_workflows ?Eok None 50000 demo_workflows world_loaded)))
        = Some 1519898401000"
    by blast+
  from c[of bulk_errors, THEN conjunct2, THEN conjunct2, THEN conjunct1] bad
  have 4: "isl (fst (findAndIndexExecutions ?Ebad ''stack'' 50000 ?w))"
    and 5: "snd (findAndIndexExecutions ?Ebad ''stack'' 50000 ?w)
        = snd (map_workflows ?Ebad None 50000 demo_workflows world_loaded)"
    and 6: "saves (trace (snd (map_workflows ?Ebad None 50000 demo_workflows world_loaded))) = saves (trace ?w)"
    and 7: "executions_meta (snd (map_workflows ?Ebad None 50000 demo_workflows world_loaded)) = executions_meta ?w"
    by blast+
  have a: "fst (findAndIndexExecutions ?Eok ''stack'' 50000 ?w) = Inr ()" by (simp add: 1)
  have b: "saves (trace (snd (findAndIndexExecutions ?Eok ''stack'' 50000 ?w))) = [1519898401000]"
    using 2 w0 by (simp add: 1)
  have c': "watermark (snd (findAndIndexExecutions ?Eok ''stack'' 50000 ?w)) = Some 1519898401000"
    using 3 by (simp add: 1)
  have d: "saves (trace (snd (findAndIndexExecutions ?Ebad ''stack'' 50000 ?w))) = []"
    using 6 w0 by (simp add: 5)
  have f: "executions_meta (snd (findAndIndexExecutions ?Ebad ''stack'' 50000 ?w)) = []"
    using 7 w0 by (simp add: 5)
  from a b c' e t1 t2 4 d f show ?thesis by blast
qed




text \<open>
  Claim C3. In a loop whose \<open>lastIndexedDate\<close> is a number \<open>T\<close>, when the page fetched at the
  head of an iteration holds an execution whose \<open>stopDate\<close> parses to a number below
  \<open>T - 300000\<close>, that iteration is the last one: the loop is the fetch of that page and its
  indexing, and the trace gains exactly one page fetch, whatever \<open>nextToken\<close> the page
  returned.
\<close>

theorem cutoff_stops_paging:
  assumes "listExecutions E (tick w) arn tok = Inr resp"
      and "e \<in> set (executions resp)"
      and "js_Date_parse E (stopDate e) = Num s"
      and "s < T - 300000"
  shows "while_not_done E (Some (Num T)) m wid arn tot tok w = last_iteration E wid arn tot tok w
       \<and> fetches (trace (snd (while_not_done E (Some (Num T)) m wid arn tot tok w)))
           = fetches (trace w) + 1"
proof -
  have "executionBeforeLastIndexed E (Some (Num T)) e"
    using assms(3,4) by (simp add: before_cutoff)
  with assms(2) have "\<exists>e \<in> set (executions resp). executionBeforeLastIndexed E (Some (Num T)) e"
    by blast
  then have "while_not_done E (Some (Num T)) m wid arn tot tok w = last_iteration E wid arn tot tok w"
    using loop_stops[OF assms(1)] by blast
  then show ?thesis by (simp add: last_iteration_fetches[OF assms(1)])
qed

theorem cutoff_stops_paging_witness:
  "listExecutions (demo_env source_old bulk_ok clock_forward) (tick world0) ''arn:ingest'' None
     = Inr \<lparr>executions = [exec_succeeded, exec_old], nextToken = Some ''page-2''\<rparr>
   \<and> exec_old \<in> set [exec_succeeded, exec_old]
   \<and> js_Date_parse (demo_env source_old bulk_ok clock_forward) (stopDate exec_old) = Num 1519898040000
   \<and> (1519898040000 :: int) < 1519898400000 - 300000
   \<and> fetches (trace (snd (while_not_done (demo_env source_old bulk_ok clock_forward)
        (Some (Num 1519898400000)) 50000 ''IngestGranule'' ''arn:ingest'' 0 None world0))) = 1"
proof -
  let ?E = "demo_env source_old bulk_ok clock_forward"
  have h1: "listExecutions ?E (tick world0) ''arn:ingest'' None
     = Inr \<lparr>executions = [exec_succeeded, exec_old], nextToken = Some ''page-2''\<rparr>"
    by (simp add: demo_env_def source_old_def)
  have h2: "exec_old \<in> set (executions \<lparr>executions = [exec_succeeded, exec_old], nextToken = Some ''page-2''\<rparr>)"
    by simp
  have h3: "js_Date_parse ?E (stopDate exec_old) = Num 1519898040000"
    by (simp add: demo_env_def exec_old_def demo_parse_def)
  have h4: "(1519898040000 :: int) < 1519898400000 - 300000" by simp
  show ?thesis
    using cutoff_stops_paging[OF h1 h2 h3 h4, of 50000 "''IngestGranule''" 0, THEN conjunct2] h1 h2 h3
    by (simp add: world0_def)
qed

text \<open>
  Claim C4. When the source answers the first request with a page of 100 executions, the
  request with that page's token with a page of 100, and the request with the second page's
  token with a page of 40, the first two tokens are truthy and the third is not, no execution
  is \<open>RUNNING\<close> or before the cutoff, and every bulk request is answered without errors, then
  under a cap above 200 the loop from \<open>totalIndexed = 0\<close> ends with \<open>totalIndexed = 240\<close> after
  exactly three page fetches. In general the iteration on a page without a truthy
  \<open>nextToken\<close> is the last one.
\<close>

theorem three_pages_three_fetches:
  "(  (\<forall>n. listExecutions E n arn None = Inr p1)
    \<and> (\<forall>n. listExecutions E n arn (nextToken p1) = Inr p2)
    \<and> (\<forall>n. listExecutions E n arn (nextToken p2) = Inr p3)
    \<and> length (executions p1) = 100 \<and> length (executions p2) = 100 \<and> length (executions p3) = 40
    \<and> truthy (nextToken p1) \<and> truthy (nextToken p2) \<and> \<not> truthy (nextToken p3)
    \<and> (\<forall>e \<in> set (executions p1 @ executions p2 @ executions p3).
          status e \<noteq> ''RUNNING'' \<and> \<not> executionBeforeLastIndexed E l e)
    \<and> (\<forall>n b. bulk E n b = Inr (Some False))
    \<and> 200 < m
    \<longrightarrow> fst (while_not_done E l m wid arn 0 None w) = Inr 240
      \<and> fetches (trace (snd (while_not_done E l m wid arn 0 None w))) = fetches (trace w) + 3)
   \<and> (listExecutions E (tick w) arn tok = Inr resp \<and> \<not> truthy (nextToken resp)
      \<longrightarrow> while_not_done E l m wid arn tot tok w = last_iteration E wid arn tot tok w
        \<and> fetches (trace (snd (while_not_done E l m wid arn tot tok w))) = fetches (trace w) + 1)"
proof (intro conjI impI)
  assume h: "(\<forall>n. listExecutions E n arn None = Inr p1)
    \<and> (\<forall>n. listExecutions E n arn (nextToken p1) = Inr p2)
    \<and> (\<forall>n. listExecutions E n arn (nextToken p2) = Inr p3)
    \<and> length (executions p1) = 100 \<and> length (executions p2) = 100 \<and> length (executions p3) = 40
    \<and> truthy (nextToken p1) \<and> truthy (nextToken p2) \<and> \<not> truthy (nextToken p3)
    \<and> (\<forall>e \<in> set (executions p1 @ executions p2 @ executions p3).
          status e \<noteq> ''RUNNING'' \<and> \<not> executionBeforeLastIndexed E l e)
    \<and> (\<forall>n b. bulk E n b = Inr (Some False))
    \<and> 200 < m"
  let ?w1 = "log_call (EsBulk (docsToBulk (map (executionToDoc E wid) (executions p1))))
              (log_call (ListExecutions arn None 100) w)"
  let ?w2 = "log_call (EsBulk (docsToBulk (map (executionToDoc E wid) (executions p2))))
              (log_call (ListExecutions arn (nextToken p1) 100) ?w1)"
  have ne: "executions p1 \<noteq> []" "executions p2 \<noteq> []" "executions p3 \<noteq> []"
    using h by auto
  have s1: "while_not_done E l m wid arn 0 None w = while_not_done E l m wid arn 100 (nextToken p1) ?w1"
    using loop_step_terminal[of E w arn None p1 0 m l wid] h ne by simp
  have s2: "while_not_done E l m wid arn 100 (nextToken p1) ?w1
          = while_not_done E l m wid arn 200 (nextToken p2) ?w2"
    using loop_step_terminal[of E ?w1 arn "nextToken p1" p2 100 m l wid] h ne by simp
  have p3: "listExecutions E (tick ?w2) arn (nextToken p2) = Inr p3" using h by blast
  have s3: "while_not_done E l m wid arn 200 (nextToken p2) ?w2
          = last_iteration E wid arn 200 (nextToken p2) ?w2"
    using loop_stops[OF p3] h by blast
  have t3: "terminal (executions p3) = executions p3"
    using h by (intro terminal_all) simp
  have ix3: "indexExecutions E wid (executions p3) (log_call (ListExecutions arn (nextToken p2) 100) ?w2) =
      (Inr 40, log_call (EsBulk (docsToBulk (map (executionToDoc E wid) (executions p3))))
                 (log_call (ListExecutions arn (nextToken p2) 100) ?w2))"
    using indexExecutions_ok[of "executions p3" E "log_call (ListExecutions arn (nextToken p2) 100) ?w2" wid]
      ne h by (simp add: t3)
  have r3: "fst (last_iteration E wid arn 200 (nextToken p2) ?w2) = Inr 240"
    using p3 ix3 by (simp add: last_iteration_def sf_listExecutions_def)
  show "fst (while_not_done E l m wid arn 0 None w) = Inr 240"
    by (simp add: s1 s2 s3 r3)
  show "fetches (trace (snd (while_not_done E l m wid arn 0 None w))) = fetches (trace w) + 3"
    by (simp add: s1 s2 s3 last_iteration_fetches[OF p3] fetches_append)
next
  assume h: "listExecutions E (tick w) arn tok = Inr resp \<and> \<not> truthy (nextToken resp)"
  then have pg: "listExecutions E (tick w) arn tok = Inr resp" by simp
  show eq: "while_not_done E l m wid arn tot tok w = last_iteration E wid arn tot tok w"
    using loop_stops[OF pg] h by blast
  show "fetches (trace (snd (while_not_done E l m wid arn tot tok w))) = fetches (trace w) + 1"
    by (simp add: eq last_iteration_fetches[OF pg])
qed

theorem three_pages_three_fetches_witness:
  "(\<forall>n. listExecutions (demo_env source_three_pages bulk_ok clock_forward) n ''arn:ingest'' None
        = Inr \<lparr>executions = replicate 100 exec_succeeded, nextToken = Some ''page-2''\<rparr>)
   \<and> (\<forall>n. listExecutions (demo_env source_three_pages bulk_ok clock_forward) n ''arn:ingest'' (Some ''page-2'')
        = Inr \<lparr>executions = replicate 100 exec_failed, nextToken = Some ''page-3''\<rparr>)
   \<and> (\<forall>n. listExecutions (demo_env source_three_pages bulk_ok clock_forward) n ''arn:ingest'' (Some ''page-3'')
        = Inr \<lparr>executions = replicate 40 exec_succeeded, nextToken = None\<rparr>)
   \<and> list_all (\<lambda>e. status e \<noteq> ''RUNNING''
         \<and> \<not> executionBeforeLastIndexed (demo_env source_three_pages bulk_ok clock_forward)
               (Some (Num 1519898400000)) e)
        (replicate 100 exec_succeeded @ replicate 100 exec_failed @ replicate 40 exec_succeeded)
   \<and> fst (while_not_done (demo_env source_three_pages bulk_ok clock_forward) (Some (Num 1519898400000))
        50000 ''IngestGranule'' ''arn:ingest'' 0 None world0) = Inr 240
   \<and> fetches (trace (snd (while_not_done (demo_env source_three_pages bulk_ok clock_forward)
        (Some (Num 1519898400000)) 50000 ''IngestGranule'' ''arn:ingest'' 0 None world0))) = 3
   \<and> fetches (trace (snd (while_not_done (demo_env source_three_pages bulk_ok clock_forward)
        (Some (Num 1519898400000)) 50000 ''IngestGranule'' ''arn:ingest'' 200 (Some ''page-3'') world0))) = 1"
proof -
  let ?E = "demo_env source_three_pages bulk_ok clock_forward"
  let ?p1 = "\<lparr>executions = replicate 100 exec_succeeded, nextToken = Some ''page-2''\<rparr>"
  let ?p2 = "\<lparr>executions = replicate 100 exec_failed, nextToken = Some ''page-3''\<rparr>"
  let ?p3 = "\<lparr>executions = replicate 40 exec_succeeded, nextToken = None\<rparr>"
  have h1: "\<forall>n. listExecutions ?E n ''arn:ingest'' None = Inr ?p1"
    by (simp add: demo_env_def source_three_pages_def)
  have h2: "\<forall>n. listExecutions ?E n ''arn:ingest'' (nextToken ?p1) = Inr ?p2"
    by (simp add: demo_env_def source_three_pages_def)
  have h3: "\<forall>n. listExecutions ?E n ''arn:ingest'' (nextToken ?p2) = Inr ?p3"
    by (simp add: demo_env_def source_three_pages_def)
  have a: "status exec_succeeded \<noteq> ''RUNNING''
      \<and> \<not> executionBeforeLastIndexed ?E (Some (Num 1519898400000)) exec_succeeded"
    by (simp add: exec_succeeded_def executionBeforeLastIndexed_def demo_env_def demo_parse_def
        LAST_INDEXED_THRESHOLD_def)
  have b: "status exec_failed \<noteq> ''RUNNING''
      \<and> \<not> executionBeforeLastIndexed ?E (Some (Num 1519898400000)) exec_failed"
    by (simp add: exec_failed_def executionBeforeLastIndexed_def demo_env_def demo_parse_def
        LAST_INDEXED_THRESHOLD_def)
  have h4: "\<forall>e \<in> set (executions ?p1 @ executions ?p2 @ executions ?p3).
      status e \<noteq> ''RUNNING'' \<and> \<not> executionBeforeLastIndexed ?E (Some (Num 1519898400000)) e"
    using a b by auto
  have h5: "\<forall>n b. bulk ?E n b = Inr (Some False)"
    by (simp add: demo_env_def bulk_ok_def)
  have hyp: "(\<forall>n. listExecutions ?E n ''arn:ingest'' None = Inr ?p1)
    \<and> (\<forall>n. listExecutions ?E n ''arn:ingest'' (nextToken ?p1) = Inr ?p2)
    \<and> (\<forall>n. listExecutions ?E n ''arn:ingest'' (nextToken ?p2) = Inr ?p3)
    \<and> length (executions ?p1) = 100 \<and> length (executions ?p2) = 100 \<and> length (executions ?p3) = 40
    \<and> truthy (nextToken ?p1) \<and> truthy (nextToken ?p2) \<and> \<not> truthy (nextToken ?p3)
    \<and> (\<forall>e \<in> set (executions ?p1 @ executions ?p2 @ executions ?p3).
          status e \<noteq> ''RUNNING'' \<and> \<not> executionBeforeLastIndexed ?E (Some (Num 1519898400000)) e)
    \<and> (\<forall>n b. bulk ?E n b = Inr (Some False))
    \<and> (200 :: int) < 50000"
    using h1 h2 h3 h4 h5 by simp
  have c: "fst (while_not_done ?E (Some (Num 1519898400000)) 50000 ''IngestGranule'' ''arn:ingest'' 0 None world0) = Inr 240
      \<and> fetches (trace (snd (while_not_done ?E (Some (Num 1519898400000)) 50000 ''IngestGranule'' ''arn:ingest'' 0 None world0)))
          = fetches (trace world0) + 3"
    using three_pages_three_fetches[of ?E "''arn:ingest''" ?p1 ?p2 ?p3 "Some (Num 1519898400000)" 50000 "''IngestGranule''" world0,
        THEN conjunct1, rule_format, OF hyp] .
  have hyp2: "listExecutions ?E (tick world0) ''arn:ingest'' (Some ''page-3'') = Inr ?p3
      \<and> \<not> truthy (nextToken ?p3)"
    using h3 by simp
  have d: "fetches (trace (snd (while_not_done ?E (Some (Num 1519898400000)) 50000 ''IngestGranule''
        ''arn:ingest'' 200 (Some ''page-3'') world0))) = fetches (trace world0) + 1"
    using three_pages_three_fetches[where E = ?E and w = world0 and arn = "''arn:ingest''" and tok = "Some ''page-3''"
        and resp = ?p3 and l = "Some (Num 1519898400000)" and m = 50000 and wid = "''IngestGranule''"
        and tot = 200, THEN conjunct2, rule_format, OF hyp2]
    by blast
  have l: "list_all (\<lambda>e. status e \<noteq> ''RUNNING''
         \<and> \<not> executionBeforeLastIndexed ?E (Some (Num 1519898400000)) e)
        (replicate 100 exec_succeeded @ replicate 100 exec_failed @ replicate 40 exec_succeeded)"
    using h4 by (simp add: list_all_iff)
  show ?thesis
    using c d h1 h2 h3 l by (simp add: world0_def)
qed

text \<open>
  Claim C5. When no execution of the fetched page is left after those with status
  \<open>RUNNING\<close> are removed, \<open>indexExecutions\<close> returns 0 and leaves the world as it is (no bulk
  request), and the loop ends at once: its result is the unchanged \<open>totalIndexed\<close>, and it has
  added to the trace the fetch of that page and nothing else.
\<close>

theorem empty_batch_stops:
  assumes "listExecutions E (tick w) arn tok = Inr resp"
      and "filter (\<lambda>e. status e \<noteq> ''RUNNING'') (executions resp) = []"
  shows "indexExecutions E wid (executions resp) u = (Inr 0, u)
       \<and> while_not_done E l m wid arn tot tok w = (Inr tot, log_call (ListExecutions arn tok 100) w)
       \<and> fetches (trace (snd (while_not_done E l m wid arn tot tok w))) = fetches (trace w) + 1
       \<and> bulks (trace (snd (while_not_done E l m wid arn tot tok w))) = bulks (trace w)"
proof -
  have t: "terminal (executions resp) = []" using assms(2) by (simp add: terminal_def)
  have ix: "\<And>u. indexExecutions E wid (executions resp) u = (Inr 0, u)"
    by (rule indexExecutions_empty[OF t])
  have "while_not_done E l m wid arn tot tok w = last_iteration E wid arn tot tok w"
    using loop_stops[OF assms(1)] t by blast
  also have "\<dots> = (Inr tot, log_call (ListExecutions arn tok 100) w)"
    using assms(1) by (simp add: last_iteration_def sf_listExecutions_def ix)
  finally have lp: "while_not_done E l m wid arn tot tok w = (Inr tot, log_call (ListExecutions arn tok 100) w)" .
  show ?thesis by (simp add: ix lp fetches_append bulks_append)
qed

theorem empty_batch_stops_witness:
  "listExecutions (demo_env source_running bulk_ok clock_forward) (tick world0) ''arn:ingest'' None
     = Inr \<lparr>executions = [exec_running], nextToken = Some ''page-2''\<rparr>
   \<and> filter (\<lambda>e. status e \<noteq> ''RUNNING'') [exec_running] = []
   \<and> indexExecutions (demo_env source_running bulk_ok clock_forward) ''IngestGranule'' [exec_running] world0
       = (Inr 0, world0)
   \<and> while_not_done (demo_env source_running bulk_ok clock_forward) None 50000
        ''IngestGranule'' ''arn:ingest'' 0 None world0
       = (Inr 0, \<lparr>executions_meta = [], trace = [ListExecutions ''arn:ingest'' None 100]\<rparr>)"
proof -
  let ?E = "demo_env source_running bulk_ok clock_forward"
  have h1: "listExecutions ?E (tick world0) ''arn:ingest'' None
     = Inr \<lparr>executions = [exec_running], nextToken = Some ''page-2''\<rparr>"
    by (simp add: demo_env_def source_running_def)
  have h2: "filter (\<lambda>e. status e \<noteq> ''RUNNING'')
      (executions \<lparr>executions = [exec_running], nextToken = Some ''page-2''\<rparr>) = []"
    by (simp add: exec_running_def)
  show ?thesis
    using empty_batch_stops[OF h1 h2, of "''IngestGranule''" world0 None 50000 0] h1 h2
    by (simp add: world0_def log_call_def)
qed

text \<open>
  Claim C6. For an execution whose status is not \<open>RUNNING\<close>, the document has \<open>_id\<close> the
  execution's name, \<open>workflow_id\<close> the workflow's id, \<open>collection_id\<close> and \<open>granule_id\<close> as
  parsed from the name, \<open>start_date\<close> and \<open>stop_date\<close> the values of \<open>Date.parse\<close> on
  \<open>startDate\<close> and \<open>stopDate\<close>, \<open>elapsed_ms\<close> their difference and \<open>success\<close> true exactly
  for the status \<open>SUCCEEDED\<close>. Each such execution of a page is in the one bulk request that
  \<open>indexExecutions\<close> sends, with its action line and its document. Every line of a bulk
  request that \<open>indexExecutions\<close> sends comes from an execution of the page whose status is
  not \<open>RUNNING\<close>, and a page of running executions sends nothing.
\<close>

theorem indexed_documents:
  "(\<forall>e. status e \<noteq> ''RUNNING'' \<longrightarrow>
       executionToDoc E wid e =
         \<lparr>doc_id = Some (name e), workflow_id = wid,
          collection_id = fst (parseExecutionName E (name e)),
          granule_id = snd (parseExecutionName E (name e)),
          start_date = js_Date_parse E (startDate e),
          stop_date = js_Date_parse E (stopDate e),
          elapsed_ms = js_minus (js_Date_parse E (stopDate e)) (js_Date_parse E (startDate e)),
          success = (status e = ''SUCCEEDED'')\<rparr>)
   \<and> (\<forall>e \<in> set execs. status e \<noteq> ''RUNNING'' \<longrightarrow>
         (\<exists>b. bulks (trace (snd (indexExecutions E wid execs w))) = bulks (trace w) @ [b]
            \<and> Action ''executions'' ''execution'' (Some (name e)) \<in> set b
            \<and> Source ((executionToDoc E wid e)\<lparr>doc_id := None\<rparr>) \<in> set b))
   \<and> (\<exists>bs. bulks (trace (snd (indexExecutions E wid execs w))) = bulks (trace w) @ bs
        \<and> (\<forall>b \<in> set bs.
              (\<forall>i t n. Action i t n \<in> set b \<longrightarrow>
                 (\<exists>e \<in> set execs. status e \<noteq> ''RUNNING'' \<and> n = Some (name e)))
            \<and> (\<forall>d. Source d \<in> set b \<longrightarrow>
                 (\<exists>e \<in> set execs. status e \<noteq> ''RUNNING''
                    \<and> d = (executionToDoc E wid e)\<lparr>doc_id := None\<rparr>))))
   \<and> ((\<forall>e \<in> set execs. status e = ''RUNNING'') \<longrightarrow> indexExecutions E wid execs w = (Inr 0, w))"
proof (intro conjI allI impI ballI)
  fix e :: execution
  show "executionToDoc E wid e =
         \<lparr>doc_id = Some (name e), workflow_id = wid,
          collection_id = fst (parseExecutionName E (name e)),
          granule_id = snd (parseExecutionName E (name e)),
          start_date = js_Date_parse E (startDate e),
          stop_date = js_Date_parse E (stopDate e),
          elapsed_ms = js_minus (js_Date_parse E (stopDate e)) (js_Date_parse E (startDate e)),
          success = (status e = ''SUCCEEDED'')\<rparr>"
    by (rule executionToDoc_eq)
next
  fix e assume e: "e \<in> set execs" "status e \<noteq> ''RUNNING''"
  let ?b = "docsToBulk (map (executionToDoc E wid) (terminal execs))"
  from e have in_t: "e \<in> set (terminal execs)" by (simp add: terminal_def)
  then have ne: "terminal execs \<noteq> []" by auto
  have 1: "bulks (trace (snd (indexExecutions E wid execs w))) = bulks (trace w) @ [?b]"
    using ne by (simp add: indexExecutions_trace bulks_append)
  have 2: "Action ''executions'' ''execution'' (Some (name e)) \<in> set ?b"
    using in_t by (auto simp: docsToBulk_Action executionToDoc_eq)
  have 3: "Source ((executionToDoc E wid e)\<lparr>doc_id := None\<rparr>) \<in> set ?b"
    using in_t by (auto simp: docsToBulk_Source)
  from 1 2 3 show "\<exists>b. bulks (trace (snd (indexExecutions E wid execs w))) = bulks (trace w) @ [b]
            \<and> Action ''executions'' ''execution'' (Some (name e)) \<in> set b
            \<and> Source ((executionToDoc E wid e)\<lparr>doc_id := None\<rparr>) \<in> set b"
    by blast
next
  let ?b = "docsToBulk (map (executionToDoc E wid) (terminal execs))"
  let ?bs = "if terminal execs = [] then [] else [?b]"
  have 1: "bulks (trace (snd (indexExecutions E wid execs w))) = bulks (trace w) @ ?bs"
    by (simp add: indexExecutions_trace bulks_append)
  have 2: "\<forall>b \<in> set ?bs.
              (\<forall>i t n. Action i t n \<in> set b \<longrightarrow>
                 (\<exists>e \<in> set execs. status e \<noteq> ''RUNNING'' \<and> n = Some (name e)))
            \<and> (\<forall>d. Source d \<in> set b \<longrightarrow>
                 (\<exists>e \<in> set execs. status e \<noteq> ''RUNNING''
                    \<and> d = (executionToDoc E wid e)\<lparr>doc_id := None\<rparr>))"
    by (auto simp: docsToBulk_Action docsToBulk_Source terminal_def executionToDoc_eq)
  from 1 2 show "\<exists>bs. bulks (trace (snd (indexExecutions E wid execs w))) = bulks (trace w) @ bs
        \<and> (\<forall>b \<in> set bs.
              (\<forall>i t n. Action i t n \<in> set b \<longrightarrow>
                 (\<exists>e \<in> set execs. status e \<noteq> ''RUNNING'' \<and> n = Some (name e)))
            \<and> (\<forall>d. Source d \<in> set b \<longrightarrow>
                 (\<exists>e \<in> set execs. status e \<noteq> ''RUNNING''
                    \<and> d = (executionToDoc E wid e)\<lparr>doc_id := None\<rparr>)))"
    by blast
next
  assume "\<forall>e \<in> set execs. status e = ''RUNNING''"
  then have "terminal execs = []" by (simp add: terminal_def filter_empty_conv)
  then show "indexExecutions E wid execs w = (Inr 0, w)" by (rule indexExecutions_empty)
qed

theorem indexed_documents_witness:
  "status exec_succeeded \<noteq> ''RUNNING''
   \<and> executionToDoc (demo_env source_two_pages bulk_ok clock_forward) ''IngestGranule'' exec_succeeded =
       \<lparr>doc_id = Some ''MOD09GQ__granule-1'', workflow_id = ''IngestGranule'',
        collection_id = Some ''MOD09GQ'', granule_id = Some ''granule-1'',
        start_date = Num 1519898460000, stop_date = Num 1519898550000,
        elapsed_ms = Num 90000, success = True\<rparr>
   \<and> status exec_failed \<noteq> ''RUNNING''
   \<and> success (executionToDoc (demo_env source_two_pages bulk_ok clock_forward) ''IngestGranule'' exec_failed) = False
   \<and> (\<exists>b. bulks (trace (snd (indexExecutions (demo_env source_two_pages bulk_ok clock_forward)
                ''IngestGranule'' [exec_running, exec_succeeded] world0))) = [b]
          \<and> Action ''executions'' ''execution'' (Some ''MOD09GQ__granule-1'') \<in> set b
          \<and> Source \<lparr>doc_id = None, workflow_id = ''IngestGranule'',
                collection_id = Some ''MOD09GQ'', granule_id = Some ''granule-1'',
                start_date = Num 1519898460000, stop_date = Num 1519898550000,
                elapsed_ms = Num 90000, success = True\<rparr> \<in> set b)
   \<and> Action ''executions'' ''execution'' (Some ''MOD09GQ__granule-3'')
        \<notin> \<Union> (set ` set (bulks (trace (snd (indexExecutions
              (demo_env source_two_pages bulk_ok clock_forward)
              ''IngestGranule'' [exec_running, exec_succeeded] world0)))))
   \<and> indexExecutions (demo_env source_two_pages bulk_ok clock_forward) ''IngestGranule'' [exec_running] world0
       = (Inr 0, world0)"
proof -
  let ?E = "demo_env source_two_pages bulk_ok clock_forward"
  let ?page = "[exec_running, exec_succeeded]"
  have s: "status exec_succeeded \<noteq> ''RUNNING''" by (simp add: exec_succeeded_def)
  have f: "status exec_failed \<noteq> ''RUNNING''" by (simp add: exec_failed_def)
  have r: "\<forall>e \<in> set [exec_running]. status e = ''RUNNING''" by (simp add: exec_running_def)
  have w0: "bulks (trace world0) = []" by (simp add: world0_def)
  note c = indexed_documents[of ?E "''IngestGranule''" "[exec_running]" world0]
  note d = indexed_documents[of ?E "''IngestGranule''" ?page world0]
  have 1: "executionToDoc ?E ''IngestGranule'' exec_succeeded =
       \<lparr>doc_id = Some ''MOD09GQ__granule-1'', workflow_id = ''IngestGranule'',
        collection_id = Some ''MOD09GQ'', granule_id = Some ''granule-1'',
        start_date = Num 1519898460000, stop_date = Num 1519898550000,
        elapsed_ms = Num 90000, success = True\<rparr>"
    using c[THEN conjunct1, rule_format, OF s]
    by (simp add: exec_succeeded_def demo_env_def demo_parse_def)
  have 2: "success (executionToDoc ?E ''IngestGranule'' exec_failed) = False"
    using c[THEN conjunct1, rule_format, OF f]
    by (simp add: exec_failed_def)
  have 3: "indexExecutions ?E ''IngestGranule'' [exec_running] world0 = (Inr 0, world0)"
    using c[THEN conjunct2, THEN conjunct2, THEN conjunct2] r by blast
  have n1: "name exec_succeeded = ''MOD09GQ__granule-1''" by (simp add: exec_succeeded_def)
  have "exec_succeeded \<in> set ?page" by simp
  with d[THEN conjunct2, THEN conjunct1] s
  obtain b where b: "bulks (trace (snd (indexExecutions ?E ''IngestGranule'' ?page world0)))
        = bulks (trace world0) @ [b]"
      "Action ''executions'' ''execution'' (Some (name exec_succeeded)) \<in> set b"
      "Source ((executionToDoc ?E ''IngestGranule'' exec_succeeded)\<lparr>doc_id := None\<rparr>) \<in> set b"
    by blast
  have 4: "\<exists>b. bulks (trace (snd (indexExecutions ?E ''IngestGranule'' ?page world0))) = [b]
          \<and> Action ''executions'' ''execution'' (Some ''MOD09GQ__granule-1'') \<in> set b
          \<and> Source \<lparr>doc_id = None, workflow_id = ''IngestGranule'',
                collection_id = Some ''MOD09GQ'', granule_id = Some ''granule-1'',
                start_date = Num 1519898460000, stop_date = Num 1519898550000,
                elapsed_ms = Num 90000, success = True\<rparr> \<in> set b"
    using b by (intro exI[of _ b]) (simp add: w0 n1 1)
  from d[THEN conjunct2, THEN conjunct2, THEN conjunct1]
  obtain bs where bs: "bulks (trace (snd (indexExecutions ?E ''IngestGranule'' ?page world0)))
        = bulks (trace world0) @ bs"
      "\<forall>b \<in> set bs. \<forall>i t n. Action i t n \<in> set b \<longrightarrow>
          (\<exists>e \<in> set ?page. status e \<noteq> ''RUNNING'' \<and> n = Some (name e))"
    by blast
  have 5: "Action ''executions'' ''execution'' (Some ''MOD09GQ__granule-3'')
        \<notin> \<Union> (set ` set (bulks (trace (snd (indexExecutions ?E ''IngestGranule'' ?page world0)))))"
  proof
    assume "Action ''executions'' ''execution'' (Some ''MOD09GQ__granule-3'')
        \<in> \<Union> (set ` set (bulks (trace (snd (indexExecutions ?E ''IngestGranule'' ?page world0)))))"
    then obtain b where "b \<in> set bs" "Action ''executions'' ''execution'' (Some ''MOD09GQ__granule-3'') \<in> set b"
      by (auto simp: bs(1) w0)
    with bs(2) obtain e where e: "e \<in> set ?page" "status e \<noteq> ''RUNNING''"
        "Some ''MOD09GQ__granule-3'' = Some (name e)"
      by blast
    have sr: "status exec_running = ''RUNNING''" by (simp add: exec_running_def)
    from e(1) have "e = exec_running \<or> e = exec_succeeded" by simp
    then show False using e(2,3) sr n1 by auto
  qed
  from s 1 f 2 4 5 3 show ?thesis by blast
qed

text \<open>
  Claim C7, as amended. A cycle that succeeds stores as the watermark the clock value it
  read at its start, whatever was stored before. So of two successful cycles, the second starting
  after the first has ended, the second stores a watermark at least as large as the first
  one's provided that the clock does not go back: \<open>Date.now()\<close> must read values that do not
  decrease from call to call.
\<close>

theorem watermark_follows_clock:
  assumes "findAndIndexExecutions E s m w = (Inr (), w')"
      and "findAndIndexExecutions E s' m' u = (Inr (), u')"
      and "tick w' \<le> tick u"
      and "\<forall>i j. i \<le> j \<longrightarrow> Date_now E i \<le> Date_now E j"
  shows "\<exists>k k'. tick w \<le> k \<and> k < tick w' \<and> trace w' ! k = DateNow
            \<and> tick u \<le> k' \<and> k' < tick u' \<and> trace u' ! k' = DateNow
            \<and> watermark w' = Some (Date_now E k)
            \<and> watermark u' = Some (Date_now E k')
            \<and> Date_now E k \<le> Date_now E k'"
proof -
  obtain k where k: "tick w \<le> k" "k < tick w'" "trace w' ! k = DateNow"
      "watermark w' = Some (Date_now E k)"
    using cycle_success[OF assms(1)] by blast
  obtain k' where k': "tick u \<le> k'" "k' < tick u'" "trace u' ! k' = DateNow"
      "watermark u' = Some (Date_now E k')"
    using cycle_success[OF assms(2)] by blast
  have "k \<le> k'" using k(2) k'(1) assms(3) by simp
  then have "Date_now E k \<le> Date_now E k'" using assms(4) by blast
  with k k' show ?thesis by blast
qed

text \<open>
  Claim C7 as the spec states it fails under a clock that goes back (\<open>Date.now()\<close> is the
  wall clock): two cycles run one after the other both succeed, and the second stores a
  watermark twelve seconds before the first one's.
\<close>

theorem watermark_follows_clock_counterexample:
  "fst (findAndIndexExecutions (demo_env source_one_page bulk_ok clock_backward) ''stack'' 50000 world0)
     = Inr ()
   \<and> fst (findAndIndexExecutions (demo_env source_one_page bulk_ok clock_backward) ''stack'' 50000
        (snd (findAndIndexExecutions (demo_env source_one_page bulk_ok clock_backward) ''stack'' 50000 world0)))
     = Inr ()
   \<and> watermark (snd (findAndIndexExecutions (demo_env source_one_page bulk_ok clock_backward)
        ''stack'' 50000 world0)) = Some 1519898400000
   \<and> watermark (snd (findAndIndexExecutions (demo_env source_one_page bulk_ok clock_backward) ''stack'' 50000
        (snd (findAndIndexExecutions (demo_env source_one_page bulk_ok clock_backward) ''stack'' 50000 world0))))
     = Some 1519898388000
   \<and> (1519898388000 :: int) < 1519898400000"
  by code_simp

theorem watermark_follows_clock_witness:
  "fst (findAndIndexExecutions (demo_env source_one_page bulk_ok clock_forward) ''stack'' 50000 world0)
     = Inr ()
   \<and> fst (findAndIndexExecutions (demo_env source_one_page bulk_ok clock_forward) ''stack'' 50000
        (snd (findAndIndexExecutions (demo_env source_one_page bulk_ok clock_forward) ''stack'' 50000 world0)))
     = Inr ()
   \<and> (\<exists>a b. watermark (snd (findAndIndexExecutions (demo_env source_one_page bulk_ok clock_forward)
                ''stack'' 50000 world0)) = Some a
         \<and> watermark (snd (findAndIndexExecutions (demo_env source_one_page bulk_ok clock_forward)
                ''stack'' 50000
                (snd (findAndIndexExecutions (demo_env source_one_page bulk_ok clock_forward)
                   ''stack'' 50000 world0)))) = Some b
         \<and> a \<le> b)"
proof -
  let ?E = "demo_env source_one_page bulk_ok clock_forward"
  let ?c1 = "findAndIndexExecutions ?E ''stack'' 50000 world0"
  let ?c2 = "findAndIndexExecutions ?E ''stack'' 50000 (snd ?c1)"
  have f1: "fst ?c1 = Inr ()" by code_simp
  have f2: "fst ?c2 = Inr ()" by code_simp
  have h1: "?c1 = (Inr (), snd ?c1)" using f1 by (metis prod.collapse)
  have h2: "?c2 = (Inr (), snd ?c2)" using f2 by (metis prod.collapse)
  have mono: "\<forall>i j. i \<le> j \<longrightarrow> Date_now ?E i \<le> Date_now ?E j"
    by (simp add: demo_env_def clock_forward_def)
  from watermark_follows_clock[OF h1 h2 _ mono] have "\<exists>a b. watermark (snd ?c1) = Some a
         \<and> watermark (snd ?c2) = Some b \<and> a \<le> b"
    by blast
  with f1 f2 show ?thesis by blast
qed

text \<open>
  Claim C8. The loop is a total function: its recursion decreases
  \<open>maxIndexExecutions - totalIndexed\<close>. It fetches at most
  \<open>max 1 (maxIndexExecutions - totalIndexed)\<close> pages, hence at most
  \<open>maxIndexExecutions - totalIndexed\<close> plus one, and at most 50000 from \<open>totalIndexed = 0\<close>
  under the cap \<open>MAX_EXECUTIONS_TO_INDEX\<close>. An iteration that indexes no document ends the
  loop; one that indexes \<open>n > 0\<close> documents raises \<open>totalIndexed\<close> by \<open>n\<close>, ends the loop when
  the new value has reached the cap, and is followed by another iteration only when the new
  value is below the cap.
\<close>

theorem loop_fetch_bound:
  "int (fetches (trace (snd (while_not_done E l m wid arn tot tok w))))
      \<le> int (fetches (trace w)) + max 1 (m - tot)
   \<and> fetches (trace (snd (while_not_done E l m wid arn tot tok w)))
      \<le> fetches (trace w) + nat (m - tot) + 1
   \<and> fetches (trace (snd (index_workflow E l MAX_EXECUTIONS_TO_INDEX wflow w)))
      \<le> fetches (trace w) + 50000
   \<and> (listExecutions E (tick w) arn tok = Inr resp
      \<and> indexExecutions E wid (executions resp) (log_call (ListExecutions arn tok 100) w) = (Inr n, w2)
      \<longrightarrow> 0 \<le> n
        \<and> (n = 0 \<longrightarrow> while_not_done E l m wid arn tot tok w = (Inr tot, w2))
        \<and> (0 < n \<and> m \<le> tot + n \<longrightarrow> while_not_done E l m wid arn tot tok w = (Inr (tot + n), w2))
        \<and> (0 < n \<longrightarrow>
             while_not_done E l m wid arn tot tok w = (Inr (tot + n), w2)
             \<or> (tot < tot + n \<and> tot + n < m
                \<and> while_not_done E l m wid arn tot tok w
                    = while_not_done E l m wid arn (tot + n) (nextToken resp) w2)))"
proof (intro conjI impI)
  have b: "\<And>E l m wid arn tot tok w.
      int (fetches (trace (snd (while_not_done E l m wid arn tot tok w))))
      \<le> int (fetches (trace w)) + max 1 (m - tot)"
  proof -
    fix E l m wid arn tot tok w
    obtain cs where "trace (snd (while_not_done E l m wid arn tot tok w)) = trace w @ cs"
        "int (fetches cs) \<le> max 1 (m - tot)"
      using loop_trace_extends[of E l m wid arn tot tok w] by blast
    then show "int (fetches (trace (snd (while_not_done E l m wid arn tot tok w))))
      \<le> int (fetches (trace w)) + max 1 (m - tot)"
      by (simp add: fetches_append)
  qed
  show "int (fetches (trace (snd (while_not_done E l m wid arn tot tok w))))
      \<le> int (fetches (trace w)) + max 1 (m - tot)" by (rule b)
  show "fetches (trace (snd (while_not_done E l m wid arn tot tok w)))
      \<le> fetches (trace w) + nat (m - tot) + 1"
    using b[of E l m wid arn tot tok w] by linarith
  show "fetches (trace (snd (index_workflow E l MAX_EXECUTIONS_TO_INDEX wflow w)))
      \<le> fetches (trace w) + 50000"
    using b[of E l 50000 "wf_id wflow" "wf_arn wflow" 0 None w]
    by (simp add: index_workflow_def MAX_EXECUTIONS_TO_INDEX_def)
next
  assume h: "listExecutions E (tick w) arn tok = Inr resp
      \<and> indexExecutions E wid (executions resp) (log_call (ListExecutions arn tok 100) w) = (Inr n, w2)"
  then show "0 \<le> n" by (auto dest: indexExecutions_count)
  from h show "n = 0 \<Longrightarrow> while_not_done E l m wid arn tot tok w = (Inr tot, w2)"
    by (simp add: while_not_done.simps[of E l m wid arn tot tok w] sf_listExecutions_def)
  from h show "0 < n \<and> m \<le> tot + n \<Longrightarrow> while_not_done E l m wid arn tot tok w = (Inr (tot + n), w2)"
    by (simp add: while_not_done.simps[of E l m wid arn tot tok w] sf_listExecutions_def)
  from h show "0 < n \<Longrightarrow>
             while_not_done E l m wid arn tot tok w = (Inr (tot + n), w2)
             \<or> (tot < tot + n \<and> tot + n < m
                \<and> while_not_done E l m wid arn tot tok w
                    = while_not_done E l m wid arn (tot + n) (nextToken resp) w2)"
    by (simp add: while_not_done.simps[of E l m wid arn tot tok w] sf_listExecutions_def Let_def)
qed

theorem loop_fetch_bound_witness:
  "listExecutions (demo_env source_two_pages bulk_ok clock_forward) (tick world0) ''arn:ingest'' None
     = Inr \<lparr>executions = [exec_running, exec_succeeded], nextToken = Some ''page-2''\<rparr>
   \<and> indexExecutions (demo_env source_two_pages bulk_ok clock_forward) ''IngestGranule''
        [exec_running, exec_succeeded] (log_call (ListExecutions ''arn:ingest'' None 100) world0)
      = (Inr 1, log_call (EsBulk (docsToBulk [executionToDoc
                   (demo_env source_two_pages bulk_ok clock_forward) ''IngestGranule'' exec_succeeded]))
                  (log_call (ListExecutions ''arn:ingest'' None 100) world0))
   \<and> while_not_done (demo_env source_two_pages bulk_ok clock_forward) None 1 ''IngestGranule''
        ''arn:ingest'' 0 None world0
      = (Inr 1, log_call (EsBulk (docsToBulk [executionToDoc
                   (demo_env source_two_pages bulk_ok clock_forward) ''IngestGranule'' exec_succeeded]))
                  (log_call (ListExecutions ''arn:ingest'' None 100) world0))
   \<and> (while_not_done (demo_env source_two_pages bulk_ok clock_forward) None 50000 ''IngestGranule''
        ''arn:ingest'' 0 None world0
      = (Inr 1, log_call (EsBulk (docsToBulk [executionToDoc
                   (demo_env source_two_pages bulk_ok clock_forward) ''IngestGranule'' exec_succeeded]))
                  (log_call (ListExecutions ''arn:ingest'' None 100) world0))
      \<or> while_not_done (demo_env source_two_pages bulk_ok clock_forward) None 50000 ''IngestGranule''
        ''arn:ingest'' 0 None world0
      = while_not_done (demo_env source_two_pages bulk_ok clock_forward) None 50000 ''IngestGranule''
        ''arn:ingest'' 1 (Some ''page-2'')
          (log_call (EsBulk (docsToBulk [executionToDoc
                   (demo_env source_two_pages bulk_ok clock_forward) ''IngestGranule'' exec_succeeded]))
                  (log_call (ListExecutions ''arn:ingest'' None 100) world0)))
   \<and> while_not_done (demo_env source_running bulk_ok clock_forward) None 50000 ''IngestGranule''
        ''arn:ingest'' 0 None world0
      = (Inr 0, log_call (ListExecutions ''arn:ingest'' None 100) world0)
   \<and> fetches (trace (snd (while_not_done (demo_env source_two_pages bulk_ok clock_forward) None 50000
        ''IngestGranule'' ''arn:ingest'' 0 None world0))) \<le> 50000
   \<and> fetches (trace (snd (while_not_done (demo_env source_two_pages bulk_ok clock_forward) None 50000
        ''IngestGranule'' ''arn:ingest'' 0 None world0))) \<le> 50001
   \<and> fetches (trace (snd (index_workflow (demo_env source_two_pages bulk_ok clock_forward) None
        MAX_EXECUTIONS_TO_INDEX \<lparr>wf_id = ''IngestGranule'', wf_arn = ''arn:ingest''\<rparr> world0))) \<le> 50000"
proof -
  let ?E = "demo_env source_two_pages bulk_ok clock_forward"
  let ?R = "demo_env source_running bulk_ok clock_forward"
  let ?resp = "\<lparr>executions = [exec_running, exec_succeeded], nextToken = Some ''page-2''\<rparr>"
  let ?w1 = "log_call (ListExecutions ''arn:ingest'' None 100) world0"
  let ?w2 = "log_call (EsBulk (docsToBulk [executionToDoc ?E ''IngestGranule'' exec_succeeded])) ?w1"
  have h1: "listExecutions ?E (tick world0) ''arn:ingest'' None = Inr ?resp"
    by (simp add: demo_env_def source_two_pages_def)
  have t: "terminal [exec_running, exec_succeeded] = [exec_succeeded]"
    by (simp add: terminal_def exec_running_def exec_succeeded_def)
  have h2: "indexExecutions ?E ''IngestGranule'' [exec_running, exec_succeeded] ?w1 = (Inr 1, ?w2)"
    using indexExecutions_ok[of "[exec_running, exec_succeeded]" ?E ?w1 "''IngestGranule''"]
    by (simp add: t demo_env_def bulk_ok_def)
  have 1: "while_not_done ?E None 1 ''IngestGranule'' ''arn:ingest'' 0 None world0 = (Inr 1, ?w2)"
    using loop_fetch_bound[of ?E None 1 "''IngestGranule''" "''arn:ingest''" 0 None world0 _ ?resp 1 ?w2,
        THEN conjunct2, THEN conjunct2, THEN conjunct2] h1 h2 by simp
  have 2: "while_not_done ?E None 50000 ''IngestGranule'' ''arn:ingest'' 0 None world0 = (Inr 1, ?w2)
      \<or> while_not_done ?E None 50000 ''IngestGranule'' ''arn:ingest'' 0 None world0
        = while_not_done ?E None 50000 ''IngestGranule'' ''arn:ingest'' 1 (Some ''page-2'') ?w2"
    using loop_fetch_bound[of ?E None 50000 "''IngestGranule''" "''arn:ingest''" 0 None world0 _ ?resp 1 ?w2,
        THEN conjunct2, THEN conjunct2, THEN conjunct2] h1 h2 by simp
  let ?run = "\<lparr>executions = [exec_running], nextToken = Some ''page-2''\<rparr>"
  have r1: "listExecutions ?R (tick world0) ''arn:ingest'' None = Inr ?run"
    by (simp add: demo_env_def source_running_def)
  have tr: "terminal [exec_running] = []" by (simp add: terminal_def exec_running_def)
  have r2: "indexExecutions ?R ''IngestGranule'' (executions ?run) ?w1 = (Inr 0, ?w1)"
    using indexExecutions_empty[OF tr] by simp
  have 3: "while_not_done ?R None 50000 ''IngestGranule'' ''arn:ingest'' 0 None world0 = (Inr 0, ?w1)"
    using loop_fetch_bound[of ?R None 50000 "''IngestGranule''" "''arn:ingest''" 0 None world0 _ ?run 0 ?w1,
        THEN conjunct2, THEN conjunct2, THEN conjunct2] r1 r2 by simp
  have 4: "fetches (trace (snd (while_not_done ?E None 50000 ''IngestGranule'' ''arn:ingest'' 0 None world0))) \<le> 50000"
    using loop_fetch_bound[of ?E None 50000 "''IngestGranule''" "''arn:ingest''" 0 None world0, THEN conjunct1]
    by (simp add: world0_def)
  have 5: "fetches (trace (snd (while_not_done ?E None 50000 ''IngestGranule'' ''arn:ingest'' 0 None world0))) \<le> 50001"
    using loop_fetch_bound[of ?E None 50000 "''IngestGranule''" "''arn:ingest''" 0 None world0,
        THEN conjunct2, THEN conjunct1]
    by (simp add: world0_def)
  have 6: "fetches (trace (snd (index_workflow ?E None MAX_EXECUTIONS_TO_INDEX
        \<lparr>wf_id = ''IngestGranule'', wf_arn = ''arn:ingest''\<rparr> world0))) \<le> 50000"
    using loop_fetch_bound[of ?E None _ _ _ _ _ world0 "\<lparr>wf_id = ''IngestGranule'', wf_arn = ''arn:ingest''\<rparr>",
        THEN conjunct2, THEN conjunct2, THEN conjunct1]
    by (simp add: world0_def)
  from h1 h2 1 2 3 4 5 6 show ?thesis by blast
qed

text \<open>
  Claim C9, on the lease store and \<open>Task.exclusive\<close> as the spec describes them. Two
  holders call \<open>run\<close> with the same key, while no unexpired lease exists for it. The first acquires
  the lease; the second attempts before the twenty minutes of the first's lease are over and
  before the first has finished. Then the second has returned \<open>Busy\<close> in its one step, while
  the first still holds the lease; and once the first has finished, it has returned the result
  of its function, its function is the only one that ran, and the lease is released,
  whether the function succeeded or failed.
\<close>

theorem lease_exclusive:
  assumes "a \<noteq> b"
      and "\<forall>l. st key = Some l \<longrightarrow> expiresAt l \<le> t1"
      and "t2 < t1 + LOCK_TIMEOUT_MS"
  shows "calls (run key fn [(a, t1), (b, t2)] (sys0 st)) a = Holding
       \<and> calls (run key fn [(a, t1), (b, t2)] (sys0 st)) b = Returned Busy
       \<and> calls (run key fn [(a, t1), (b, t2), (a, t3)] (sys0 st)) a = Returned (Ran (fn a))
       \<and> calls (run key fn [(a, t1), (b, t2), (a, t3)] (sys0 st)) b = Returned Busy
       \<and> ran (run key fn [(a, t1), (b, t2), (a, t3)] (sys0 st)) = [a]
       \<and> leases (run key fn [(a, t1), (b, t2), (a, t3)] (sys0 st)) key = None"
proof -
  let ?l = "\<lparr>resourceKey = key, holderId = a, expiresAt = t1 + LOCK_TIMEOUT_MS\<rparr>"
  let ?s1 = "\<lparr>leases = st(key \<mapsto> ?l), calls = (\<lambda>h. NotStarted)(a := Holding), ran = []\<rparr> :: 'a sys"
  let ?s2 = "\<lparr>leases = st(key \<mapsto> ?l),
              calls = (\<lambda>h. NotStarted)(a := Holding, b := Returned Busy), ran = []\<rparr> :: 'a sys"
  have 1: "exclusive_step key LOCK_TIMEOUT_MS fn (a, t1) (sys0 st) = ?s1"
    by (simp add: exclusive_step_def sys0_def tryAcquire_free[of st key t1, OF assms(2)])
  have 2: "exclusive_step key LOCK_TIMEOUT_MS fn (b, t2) ?s1 = ?s2"
    using assms(1,3) by (simp add: exclusive_step_def tryAcquire_held[of _ key ?l])
  have 3: "exclusive_step key LOCK_TIMEOUT_MS fn (a, t3) ?s2
      = \<lparr>leases = (st(key \<mapsto> ?l))(key := None),
         calls = (\<lambda>h. NotStarted)(a := Holding, b := Returned Busy, a := Returned (Ran (fn a))),
         ran = [a]\<rparr>"
    using assms(1) by (simp add: exclusive_step_def release_def)
  show ?thesis
    using assms(1) by (simp add: run_def exclusive_def 1 2 3)
qed

theorem lease_exclusive_witness:
  "''task-A'' \<noteq> ''task-B''
   \<and> (600000 :: int) < 0 + LOCK_TIMEOUT_MS
   \<and> calls (run ''tx-1'' (\<lambda>h. if h = ''task-A'' then Inl ''mrfgen exited with code 1'' else Inr h)
        [(''task-A'', 0), (''task-B'', 600000), (''task-A'', 900000)] (sys0 Map.empty)) ''task-A''
      = Returned (Ran (Inl ''mrfgen exited with code 1''))
   \<and> calls (run ''tx-1'' (\<lambda>h. if h = ''task-A'' then Inl ''mrfgen exited with code 1'' else Inr h)
        [(''task-A'', 0), (''task-B'', 600000), (''task-A'', 900000)] (sys0 Map.empty)) ''task-B''
      = Returned Busy
   \<and> leases (run ''tx-1'' (\<lambda>h. if h = ''task-A'' then Inl ''mrfgen exited with code 1'' else Inr h)
        [(''task-A'', 0), (''task-B'', 600000), (''task-A'', 900000)] (sys0 Map.empty)) ''tx-1''
      = None"
proof -
  have h1: "''task-A'' \<noteq> ''task-B''" by simp
  have h2: "\<forall>l. (Map.empty :: lease_store) ''tx-1'' = Some l \<longrightarrow> expiresAt l \<le> 0" by simp
  have h3: "(600000 :: int) < 0 + LOCK_TIMEOUT_MS" by (simp add: LOCK_TIMEOUT_MS_def)
  show ?thesis
    using lease_exclusive[OF h1 h2 h3,
        where fn = "\<lambda>h. if h = ''task-A'' then Inl ''mrfgen exited with code 1'' else Inr h"
          and ?t3.0 = 900000]
      h3
    by simp
qed

text \<open>
  Claim C10, as amended. When the index \<open>executions-meta\<close> holds no document,
  \<open>getLastIndexedDate\<close> returns \<open>null\<close>. With \<open>null\<close> the cutoff test is
  \<open>Date.parse(e.stopDate) < -300000\<close>: it is false when \<open>stopDate\<close> is absent or does not parse,
  and for a stop date that parses to \<open>s\<close> it is \<open>s < -300000\<close>, so it is false exactly for the
  stop dates not earlier than five minutes before the epoch. On a page whose stop dates all
  are such, an iteration that indexed at least one document, is below the cap and has a
  truthy \<open>nextToken\<close> is followed by another iteration.
\<close>

theorem first_cycle_cutoff:
  "(executions_meta w = [] \<longrightarrow> fst (getLastIndexedDate E w) = None)
   \<and> executionBeforeLastIndexed E None e = js_less (js_Date_parse E (stopDate e)) (Num (- 300000))
   \<and> (stopDate e = None \<longrightarrow> \<not> executionBeforeLastIndexed E None e)
   \<and> (js_Date_parse E (stopDate e) = NaN \<longrightarrow> \<not> executionBeforeLastIndexed E None e)
   \<and> (js_Date_parse E (stopDate e) = Num s \<longrightarrow>
         executionBeforeLastIndexed E None e = (s < - 300000))
   \<and> (listExecutions E (tick w) arn tok = Inr resp
      \<and> indexExecutions E wid (executions resp) (log_call (ListExecutions arn tok 100) w) = (Inr n, w2)
      \<and> (\<forall>x \<in> set (executions resp). \<forall>s. js_Date_parse E (stopDate x) = Num s \<longrightarrow> - 300000 \<le> s)
      \<and> 0 < n \<and> tot + n < m \<and> truthy (nextToken resp)
      \<longrightarrow> while_not_done E None m wid arn tot tok w
          = while_not_done E None m wid arn (tot + n) (nextToken resp) w2)"
proof (intro conjI impI)
  show "executions_meta w = [] \<Longrightarrow> fst (getLastIndexedDate E w) = None"
    by (simp add: getLastIndexedDate_def)
  show "executionBeforeLastIndexed E None e = js_less (js_Date_parse E (stopDate e)) (Num (- 300000))"
    by (rule before_cutoff_null)
  show "stopDate e = None \<Longrightarrow> \<not> executionBeforeLastIndexed E None e"
    by (simp add: before_cutoff_null)
  show "js_Date_parse E (stopDate e) = NaN \<Longrightarrow> \<not> executionBeforeLastIndexed E None e"
    by (simp add: before_cutoff_null)
  show "js_Date_parse E (stopDate e) = Num s \<Longrightarrow> executionBeforeLastIndexed E None e = (s < - 300000)"
    by (simp add: before_cutoff_null)
next
  assume h: "listExecutions E (tick w) arn tok = Inr resp
      \<and> indexExecutions E wid (executions resp) (log_call (ListExecutions arn tok 100) w) = (Inr n, w2)
      \<and> (\<forall>x \<in> set (executions resp). \<forall>s. js_Date_parse E (stopDate x) = Num s \<longrightarrow> - 300000 \<le> s)
      \<and> 0 < n \<and> tot + n < m \<and> truthy (nextToken resp)"
  have "\<forall>x \<in> set (executions resp). \<not> executionBeforeLastIndexed E None x"
  proof
    fix x assume x: "x \<in> set (executions resp)"
    show "\<not> executionBeforeLastIndexed E None x"
    proof (cases "js_Date_parse E (stopDate x)")
      case (Num s)
      with h x have "- 300000 \<le> s" by blast
      with Num show ?thesis by (simp add: before_cutoff_null)
    next
      case NaN
      then show ?thesis by (simp add: before_cutoff_null)
    qed
  qed
  with h show "while_not_done E None m wid arn tot tok w
          = while_not_done E None m wid arn (tot + n) (nextToken resp) w2"
    using loop_continues[of E w arn tok resp wid n w2 tot m None] by blast
qed

text \<open>
  Claim C10 as the spec states it fails for a stop date before the epoch: \<open>exec_1960\<close> has
  a stop date that parses, to \<open>-315619200000\<close>, the cutoff test with \<open>null\<close> holds for it, and
  a first-cycle loop stops after its page although the page has a token, one document was
  indexed and the cap is far.
\<close>

theorem first_cycle_cutoff_counterexample:
  "js_Date_parse (demo_env source_1960 bulk_ok clock_forward) (stopDate exec_1960) = Num (- 315619200000)
   \<and> executionBeforeLastIndexed (demo_env source_1960 bulk_ok clock_forward) None exec_1960
   \<and> listExecutions (demo_env source_1960 bulk_ok clock_forward) (tick world0) ''arn:ingest'' None
       = Inr \<lparr>executions = [exec_1960], nextToken = Some ''page-2''\<rparr>
   \<and> while_not_done (demo_env source_1960 bulk_ok clock_forward) None 50000 ''IngestGranule''
        ''arn:ingest'' 0 None world0
      = (Inr 1, \<lparr>executions_meta = [],
                 trace = [ListExecutions ''arn:ingest'' None 100,
                          EsBulk (docsToBulk [executionToDoc (demo_env source_1960 bulk_ok clock_forward)
                                    ''IngestGranule'' exec_1960])]\<rparr>)"
proof -
  let ?E = "demo_env source_1960 bulk_ok clock_forward"
  let ?resp = "\<lparr>executions = [exec_1960], nextToken = Some ''page-2''\<rparr>"
  have p: "js_Date_parse ?E (stopDate exec_1960) = Num (- 315619200000)"
    by (simp add: demo_env_def exec_1960_def demo_parse_def)
  have b: "executionBeforeLastIndexed ?E None exec_1960"
    by (simp add: before_cutoff_null p)
  have h1: "listExecutions ?E (tick world0) ''arn:ingest'' None = Inr ?resp"
    by (simp add: demo_env_def source_1960_def)
  have t: "terminal [exec_1960] = [exec_1960]"
    by (simp add: terminal_def exec_1960_def)
  have ix: "indexExecutions ?E ''IngestGranule'' [exec_1960] (log_call (ListExecutions ''arn:ingest'' None 100) world0)
      = (Inr 1, log_call (EsBulk (docsToBulk [executionToDoc ?E ''IngestGranule'' exec_1960]))
                  (log_call (ListExecutions ''arn:ingest'' None 100) world0))"
    using indexExecutions_ok[of "[exec_1960]" ?E "log_call (ListExecutions ''arn:ingest'' None 100) world0" "''IngestGranule''"]
    by (simp add: t demo_env_def bulk_ok_def)
  have "while_not_done ?E None 50000 ''IngestGranule'' ''arn:ingest'' 0 None world0
      = last_iteration ?E ''IngestGranule'' ''arn:ingest'' 0 None world0"
    using loop_stops[OF h1, of 50000 0 None "''IngestGranule''"] b by simp
  then have l: "while_not_done ?E None 50000 ''IngestGranule'' ''arn:ingest'' 0 None world0
      = (Inr 1, \<lparr>executions_meta = [],
                 trace = [ListExecutions ''arn:ingest'' None 100,
                          EsBulk (docsToBulk [executionToDoc ?E ''IngestGranule'' exec_1960])]\<rparr>)"
    using h1 ix by (simp add: last_iteration_def sf_listExecutions_def log_call_def world0_def)
  from p b h1 l show ?thesis by blast
qed

theorem first_cycle_cutoff_witness:
  "executions_meta world0 = []
   \<and> fst (getLastIndexedDate (demo_env source_two_pages bulk_ok clock_forward) world0) = None
   \<and> stopDate exec_running = None
   \<and> js_Date_parse (demo_env source_two_pages bulk_ok clock_forward) (stopDate exec_running) = NaN
   \<and> \<not> executionBeforeLastIndexed (demo_env source_two_pages bulk_ok clock_forward) None exec_running
   \<and> js_Date_parse (demo_env source_two_pages bulk_ok clock_forward) (stopDate exec_succeeded) = Num 1519898550000
   \<and> \<not> executionBeforeLastIndexed (demo_env source_two_pages bulk_ok clock_forward) None exec_succeeded
   \<and> while_not_done (demo_env source_two_pages bulk_ok clock_forward) None 50000 ''IngestGranule''
        ''arn:ingest'' 0 None world0
      = while_not_done (demo_env source_two_pages bulk_ok clock_forward) None 50000 ''IngestGranule''
        ''arn:ingest'' 1 (Some ''page-2'')
          (snd (indexExecutions (demo_env source_two_pages bulk_ok clock_forward) ''IngestGranule''
             [exec_running, exec_succeeded] (log_call (ListExecutions ''arn:ingest'' None 100) world0)))"
proof -
  let ?E = "demo_env source_two_pages bulk_ok clock_forward"
  let ?resp = "\<lparr>executions = [exec_running, exec_succeeded], nextToken = Some ''page-2''\<rparr>"
  let ?w1 = "log_call (ListExecutions ''arn:ingest'' None 100) world0"
  let ?w2 = "snd (indexExecutions ?E ''IngestGranule'' [exec_running, exec_succeeded] ?w1)"
  have m: "executions_meta world0 = []" by (simp add: world0_def)
  have sr: "stopDate exec_running = None" by (simp add: exec_running_def)
  have pn: "js_Date_parse ?E (stopDate exec_running) = NaN" by (simp add: sr)
  have ps: "js_Date_parse ?E (stopDate exec_succeeded) = Num 1519898550000"
    by (simp add: demo_env_def exec_succeeded_def demo_parse_def)
  have h1: "listExecutions ?E (tick world0) ''arn:ingest'' None = Inr ?resp"
    by (simp add: demo_env_def source_two_pages_def)
  have t: "terminal [exec_running, exec_succeeded] = [exec_succeeded]"
    by (simp add: terminal_def exec_running_def exec_succeeded_def)
  have h2: "indexExecutions ?E ''IngestGranule'' (executions ?resp) ?w1 = (Inr 1, ?w2)"
    using indexExecutions_ok[of "[exec_running, exec_succeeded]" ?E ?w1 "''IngestGranule''"]
    by (simp add: t demo_env_def bulk_ok_def)
  have h3: "\<forall>x \<in> set (executions ?resp). \<forall>s. js_Date_parse ?E (stopDate x) = Num s \<longrightarrow> - 300000 \<le> s"
    using ps by (simp add: sr)
  have 1: "fst (getLastIndexedDate ?E world0) = None"
    using first_cycle_cutoff[of world0 ?E, THEN conjunct1] m by simp
  have 2: "\<not> executionBeforeLastIndexed ?E None exec_running"
    using first_cycle_cutoff[of world0 ?E exec_running, THEN conjunct2, THEN conjunct2, THEN conjunct1] sr by simp
  have 5: "\<not> executionBeforeLastIndexed ?E None exec_running"
    using first_cycle_cutoff[of world0 ?E exec_running, THEN conjunct2, THEN conjunct2, THEN conjunct2,
        THEN conjunct1] pn by blast
  have 3: "\<not> executionBeforeLastIndexed ?E None exec_succeeded"
    using first_cycle_cutoff[of world0 ?E exec_succeeded 1519898550000, THEN conjunct2, THEN conjunct2,
        THEN conjunct2, THEN conjunct2, THEN conjunct1] ps by simp
  have 4: "while_not_done ?E None 50000 ''IngestGranule'' ''arn:ingest'' 0 None world0
      = while_not_done ?E None 50000 ''IngestGranule'' ''arn:ingest'' 1 (Some ''page-2'') ?w2"
    using first_cycle_cutoff[of world0 ?E exec_running 0 "''arn:ingest''" None ?resp "''IngestGranule''" 1 ?w2 0 50000,
        THEN conjunct2, THEN conjunct2, THEN conjunct2, THEN conjunct2, THEN conjunct2]
      h1 h2 h3 by simp
  from m sr pn ps 1 2 5 3 4 show ?thesis by blast
qed

end
